theory Spec2Isabelle
  imports Main "HOL-Library.List_Lexorder" "HOL-Library.Char_ord"
begin

section \<open>The ONNX backend factory (onnx\_backend\_factory.cc)\<close>

text \<open>
  The factory has two operations. \<open>Create\<close> builds the factory itself and starts the
  process-wide ONNX loader; \<open>CreateBackend\<close> resolves one model directory into a map from
  artifact names to file contents or localized directory paths and hands that map to a
  new backend. Both are embedded below as pure functions that return, next to their
  result, the list of calls and object lifetimes they went through.
\<close>

subsection \<open>Status values\<close>

text \<open>
  A C++ \<open>Status\<close> is either \<open>Status::Success\<close> or an error carrying a message.
  \<open>RETURN_IF_ERROR(S)\<close> evaluates \<open>S\<close> once and returns it from the enclosing
  function when it is not \<open>Success\<close>.
\<close>

datatype Status = Success | Failure string

subsection \<open>The artifact map\<close>

text \<open>
  \<open>models\<close> is a \<open>std::unordered_map<std::string, std::pair<bool, std::string>>\<close>.
  The flag is \<open>true\<close> for file contents and \<open>false\<close> for the path of a localized
  subdirectory. The map is kept as an association list so that the number of entries
  under a key can be stated; \<open>emplace\<close> inserts only when the key is absent, as
  \<open>unordered_map::emplace\<close> does.
\<close>

type_synonym models = "(string \<times> (bool \<times> string)) list"

definition emplace :: "models \<Rightarrow> string \<Rightarrow> bool \<times> string \<Rightarrow> models" where
  "emplace m k v = (if k \<in> fst ` set m then m else m @ [(k, v)])"

subsection \<open>The collaborators\<close>

text \<open>
  Everything \<open>CreateBackend\<close> and \<open>Create\<close> call lives outside this file: the
  filesystem helpers, the temporary directories, the backend object and the loader.
  The record \<open>world\<close> fixes what they answer. \<open>dir_entries\<close> lists the entries directly
  under a directory, each with a flag telling whether it is a directory; the kind of a
  name is the one \<open>map_of\<close> finds, so a name is never both a file and a directory.
  \<open>file_bytes\<close> is the byte content stored on disk at a path (a C++ \<open>std::string\<close>
  holds arbitrary bytes, the null byte included). The \<open>*_status\<close> fields say which
  calls fail. \<open>JoinPath\<close> and the platform constant are taken as parameters.
\<close>

record world =
  hidden_marker :: char
  dir_entries :: "string \<Rightarrow> (string \<times> bool) list"
  file_bytes :: "string \<Rightarrow> string"
  scan_files_status :: "string \<Rightarrow> Status"
  scan_subdirs_status :: "string \<Rightarrow> Status"
  localize_status :: "string \<Rightarrow> nat \<Rightarrow> Status"
  read_status :: "string \<Rightarrow> Status"
  temp_path :: "nat \<Rightarrow> string"
  init_status :: "string \<Rightarrow> Status"
  contexts_status :: "models \<Rightarrow> Status"
  loader_init_status :: Status
  JoinPath :: "string list \<Rightarrow> string"
  kOnnxRuntimeOnnxPlatform :: string

text \<open>
  Modelled from the spec: the hidden-entry test of the filesystem helpers is not part of
  this file. An entry is hidden when its name begins with the platform's hidden-file
  marker.
\<close>

definition is_hidden :: "world \<Rightarrow> string \<Rightarrow> bool" where
  "is_hidden w name = (case name of [] \<Rightarrow> False | c # _ \<Rightarrow> c = hidden_marker w)"

definition is_regular_file :: "world \<Rightarrow> string \<Rightarrow> string \<Rightarrow> bool" where
  "is_regular_file w path name = (map_of (dir_entries w path) name = Some False)"

definition is_subdir :: "world \<Rightarrow> string \<Rightarrow> string \<Rightarrow> bool" where
  "is_subdir w path name = (map_of (dir_entries w path) name = Some True)"

text \<open>
  Modelled from the spec: \<open>GetDirectoryFiles\<close> (src/core/filesystem) is not part of this
  file. It enumerates the regular files directly under \<open>path\<close>, leaving hidden entries
  out when \<open>skip_hidden_files\<close> is set, and fails as a whole when the scan fails. The
  result is a \<open>std::set<std::string>\<close>: distinct names in ascending order.
\<close>

definition GetDirectoryFiles :: "world \<Rightarrow> string \<Rightarrow> bool \<Rightarrow> Status \<times> string list" where
  "GetDirectoryFiles w path skip_hidden_files =
     (case scan_files_status w path of
        Failure msg \<Rightarrow> (Failure msg, [])
      | Success \<Rightarrow>
          (Success,
           sort (remdups (filter
             (\<lambda>n. is_regular_file w path n \<and> \<not> (skip_hidden_files \<and> is_hidden w n))
             (map fst (dir_entries w path))))))"

text \<open>
  Modelled from the spec: \<open>GetDirectorySubdirs\<close> (src/core/filesystem) is not part of
  this file. It enumerates the immediate subdirectories under \<open>path\<close>. Hidden entries
  are excluded from the artifact set: the call takes no flag for them, so the scan
  itself leaves them out. The result is a \<open>std::set<std::string>\<close> again.
\<close>

definition GetDirectorySubdirs :: "world \<Rightarrow> string \<Rightarrow> Status \<times> string list" where
  "GetDirectorySubdirs w path =
     (case scan_subdirs_status w path of
        Failure msg \<Rightarrow> (Failure msg, [])
      | Success \<Rightarrow>
          (Success,
           sort (remdups (filter
             (\<lambda>n. is_subdir w path n \<and> \<not> is_hidden w n)
             (map fst (dir_entries w path))))))"

text \<open>
  Modelled from the spec: \<open>ReadTextFile\<close> (src/core/filesystem) is not part of this file.
  It reads the full content of a file as raw bytes, byte-exact, or fails.
\<close>

definition ReadTextFile :: "world \<Rightarrow> string \<Rightarrow> Status \<times> string" where
  "ReadTextFile w path =
     (case read_status w path of
        Failure msg \<Rightarrow> (Failure msg, [])
      | Success \<Rightarrow> (Success, file_bytes w path))"

text \<open>
  Modelled from the spec: \<open>TemporaryDirectory\<close> is not part of this file. Each
  construction allocates a fresh scoped store; the store made \<open>s\<close>-th in a call is
  identified by \<open>s\<close>, and \<open>model_path\<close> is the path of its directory. The directory is
  removed when the last \<open>shared_ptr\<close> to the store goes away.
\<close>

record TemporaryDirectory =
  store_id :: nat
  model_path :: string

definition make_TemporaryDirectory :: "world \<Rightarrow> nat \<Rightarrow> TemporaryDirectory" where
  "make_TemporaryDirectory w s = \<lparr>store_id = s, model_path = temp_path w s\<rparr>"

text \<open>
  Modelled from the spec: \<open>LocalizeFileFolder\<close> is not part of this file. It copies the
  directory at \<open>path\<close> into the given store, or fails; it keeps no reference to the
  store.
\<close>

definition LocalizeFileFolder :: "world \<Rightarrow> string \<Rightarrow> TemporaryDirectory \<Rightarrow> Status" where
  "LocalizeFileFolder w path local_dir = localize_status w path (store_id local_dir)"

text \<open>
  Modelled from the spec: the class \<open>OnnxBackend\<close> is not part of this file. A backend
  is built with its compute-capability floor; \<open>Init\<close> records path, model configuration
  and platform, \<open>CreateExecutionContexts\<close> consumes the artifact map. Either may fail.
\<close>

record ('mc, 'cc) OnnxBackend =
  min_compute_capability_ :: 'cc
  initialized :: "(string \<times> 'mc \<times> string) option"
  contexts :: "models option"

definition new_OnnxBackend :: "'cc \<Rightarrow> ('mc, 'cc) OnnxBackend" where
  "new_OnnxBackend min_compute_capability =
     \<lparr>min_compute_capability_ = min_compute_capability, initialized = None, contexts = None\<rparr>"

definition Init ::
  "world \<Rightarrow> ('mc, 'cc) OnnxBackend \<Rightarrow> string \<Rightarrow> 'mc \<Rightarrow> string \<Rightarrow> Status \<times> ('mc, 'cc) OnnxBackend"
where
  "Init w b path model_config platform =
     (case init_status w path of
        Failure msg \<Rightarrow> (Failure msg, b)
      | Success \<Rightarrow> (Success, b\<lparr>initialized := Some (path, model_config, platform)\<rparr>))"

definition CreateExecutionContexts ::
  "world \<Rightarrow> ('mc, 'cc) OnnxBackend \<Rightarrow> models \<Rightarrow> Status \<times> ('mc, 'cc) OnnxBackend"
where
  "CreateExecutionContexts w b m =
     (case contexts_status w m of
        Failure msg \<Rightarrow> (Failure msg, b)
      | Success \<Rightarrow> (Success, b\<lparr>contexts := Some m\<rparr>))"

subsection \<open>Events\<close>

text \<open>
  The trace of a call: every collaborator call with the status it returned, and every
  construction and destruction of a scoped object, in program order.
\<close>

datatype event =
    CallGetDirectoryFiles string bool Status
  | CallGetDirectorySubdirs string Status
  | NewTemporaryDirectory nat
  | CallLocalizeFileFolder string nat Status
  | CallReadTextFile string Status
  | NewOnnxBackend
  | CallInit string Status
  | CallCreateExecutionContexts models Status
  | DeleteOnnxBackend
  | DeleteTemporaryDirectory nat
  | NewOnnxBackendFactory
  | CallOnnxLoaderInit Status
  | DeleteOnnxBackendFactory
  | CallOnnxLoaderStop

fun call_status :: "event \<Rightarrow> Status option" where
  "call_status (CallGetDirectoryFiles p h s) = Some s"
| "call_status (CallGetDirectorySubdirs p s) = Some s"
| "call_status (CallLocalizeFileFolder p k s) = Some s"
| "call_status (CallReadTextFile p s) = Some s"
| "call_status (CallInit p s) = Some s"
| "call_status (CallCreateExecutionContexts m s) = Some s"
| "call_status (CallOnnxLoaderInit s) = Some s"
| "call_status e = None"

fun is_release :: "event \<Rightarrow> bool" where
  "is_release (DeleteTemporaryDirectory s) = True"
| "is_release e = False"

fun is_cleanup :: "event \<Rightarrow> bool" where
  "is_cleanup (DeleteTemporaryDirectory s) = True"
| "is_cleanup DeleteOnnxBackend = True"
| "is_cleanup DeleteOnnxBackendFactory = True"
| "is_cleanup CallOnnxLoaderStop = True"
| "is_cleanup e = False"

definition failed :: "event \<Rightarrow> bool" where
  "failed e = (case call_status e of Some (Failure msg) \<Rightarrow> True | _ \<Rightarrow> False)"

text \<open>The status of the first call of a trace that failed, if any did.\<close>

definition first_failure :: "event list \<Rightarrow> Status option" where
  "first_failure tr = (case filter failed tr of [] \<Rightarrow> None | e # _ \<Rightarrow> call_status e)"

text \<open>What a trace did after its first failed call.\<close>

definition after_failure :: "event list \<Rightarrow> event list" where
  "after_failure tr = tl (dropWhile (\<lambda>e. \<not> failed e) tr)"

definition stores_allocated :: "event list \<Rightarrow> nat list" where
  "stores_allocated tr = concat (map (\<lambda>e. case e of NewTemporaryDirectory s \<Rightarrow> [s] | _ \<Rightarrow> []) tr)"

definition stores_released :: "event list \<Rightarrow> nat list" where
  "stores_released tr = concat (map (\<lambda>e. case e of DeleteTemporaryDirectory s \<Rightarrow> [s] | _ \<Rightarrow> []) tr)"

definition stores_used :: "event list \<Rightarrow> nat list" where
  "stores_used tr = concat (map (\<lambda>e. case e of CallLocalizeFileFolder p s st \<Rightarrow> [s] | _ \<Rightarrow> []) tr)"

definition maps_handed_over :: "event list \<Rightarrow> models list" where
  "maps_handed_over tr =
     concat (map (\<lambda>e. case e of CallCreateExecutionContexts m st \<Rightarrow> [m] | _ \<Rightarrow> []) tr)"

subsection \<open>CreateBackend\<close>

text \<open>
  A loop either runs to its end with the map it built (\<open>Next\<close>), leaves the function
  through \<open>RETURN_IF_ERROR\<close> (\<open>Return\<close>), or indexes \<open>local_onnx\<close> outside its size
  (\<open>OutOfRange\<close>), which \<open>std::vector::operator[]\<close> leaves undefined.
\<close>

datatype control = Next models | Return Status | OutOfRange

text \<open>
  Lines 93 to 102: the loop over \<open>onnx_subdirs\<close>, with the counter \<open>i\<close> that indexes
  \<open>local_onnx\<close>. Each loop returns the events it went through.
\<close>

fun subdirs_loop ::
  "world \<Rightarrow> string \<Rightarrow> TemporaryDirectory list \<Rightarrow> string list \<Rightarrow> nat \<Rightarrow> models
    \<Rightarrow> control \<times> event list"
where
  "subdirs_loop w path local_onnx [] i m = (Next m, [])"
| "subdirs_loop w path local_onnx (dirname # rest) i m =
     (let onnx_path = JoinPath w [path, dirname] in
      if length local_onnx \<le> i then (OutOfRange, [])
      else
        (case LocalizeFileFolder w onnx_path (local_onnx ! i) of
           Failure msg \<Rightarrow>
             (Return (Failure msg),
              [CallLocalizeFileFolder onnx_path (store_id (local_onnx ! i)) (Failure msg)])
         | Success \<Rightarrow>
             apsnd ((#) (CallLocalizeFileFolder onnx_path (store_id (local_onnx ! i)) Success))
               (subdirs_loop w path local_onnx rest (i + 1)
                  (emplace m dirname (False, model_path (local_onnx ! i))))))"

text \<open>Lines 104 to 113: the loop over \<open>onnx_files\<close>.\<close>

fun files_loop :: "world \<Rightarrow> string \<Rightarrow> string list \<Rightarrow> models \<Rightarrow> control \<times> event list" where
  "files_loop w path [] m = (Next m, [])"
| "files_loop w path (filename # rest) m =
     (let onnx_path = JoinPath w [path, filename] in
      (case ReadTextFile w onnx_path of
         (Failure msg, model_data_str) \<Rightarrow>
           (Return (Failure msg), [CallReadTextFile onnx_path (Failure msg)])
       | (Success, model_data_str) \<Rightarrow>
           apsnd ((#) (CallReadTextFile onnx_path Success))
             (files_loop w path rest (emplace m filename (True, model_data_str)))))"

text \<open>
  The result of a call: the status returned and the value of the output parameter
  (\<open>None\<close> when it was never assigned), or no defined result at all.
\<close>

datatype 'b outcome = Returns Status "'b option" | UndefinedBehaviour

text \<open>
  Lines 115 to 124: the backend is built, initialised and given the map. On an error
  return the \<open>unique_ptr\<close> \<open>local_backend\<close> deletes it; on success it is moved into
  the output parameter.
\<close>

definition construct_backend ::
  "world \<Rightarrow> string \<Rightarrow> 'mc \<Rightarrow> 'cc \<Rightarrow> models \<Rightarrow> ('mc, 'cc) OnnxBackend outcome \<times> event list"
where
  "construct_backend w path model_config min_compute_capability m =
     (let local_backend = new_OnnxBackend min_compute_capability in
      (case Init w local_backend path model_config (kOnnxRuntimeOnnxPlatform w) of
         (Failure msg, b1) \<Rightarrow>
           (Returns (Failure msg) None,
            [NewOnnxBackend, CallInit path (Failure msg), DeleteOnnxBackend])
       | (Success, b1) \<Rightarrow>
           (case CreateExecutionContexts w b1 m of
              (Failure msg, b2) \<Rightarrow>
                (Returns (Failure msg) None,
                 [NewOnnxBackend, CallInit path Success,
                  CallCreateExecutionContexts m (Failure msg), DeleteOnnxBackend])
            | (Success, b2) \<Rightarrow>
                (Returns Success (Some b2),
                 [NewOnnxBackend, CallInit path Success,
                  CallCreateExecutionContexts m Success]))))"

text \<open>
  Lines 65 to 125. \<open>local_onnx\<close> is sized by the number of files and filled with one
  new store per element; it is a local variable, so its stores are released on every
  return that follows its construction, after \<open>local_backend\<close>.
\<close>

definition CreateBackend ::
  "world \<Rightarrow> string \<Rightarrow> 'mc \<Rightarrow> 'cc \<Rightarrow> ('mc, 'cc) OnnxBackend outcome \<times> event list"
where
  "CreateBackend w path model_config min_compute_capability =
     (case GetDirectoryFiles w path True of
        (Failure msg, onnx_files) \<Rightarrow>
          (Returns (Failure msg) None, [CallGetDirectoryFiles path True (Failure msg)])
      | (Success, onnx_files) \<Rightarrow>
          (case GetDirectorySubdirs w path of
             (Failure msg, onnx_subdirs) \<Rightarrow>
               (Returns (Failure msg) None,
                [CallGetDirectoryFiles path True Success,
                 CallGetDirectorySubdirs path (Failure msg)])
           | (Success, onnx_subdirs) \<Rightarrow>
               (let local_onnx = map (make_TemporaryDirectory w) [0..<length onnx_files];
                    scanned = [CallGetDirectoryFiles path True Success,
                               CallGetDirectorySubdirs path Success]
                              @ map NewTemporaryDirectory [0..<length onnx_files];
                    release = map DeleteTemporaryDirectory [0..<length onnx_files]
                in
                (case subdirs_loop w path local_onnx onnx_subdirs 0 [] of
                   (OutOfRange, localized) \<Rightarrow> (UndefinedBehaviour, scanned @ localized)
                 | (Return s, localized) \<Rightarrow> (Returns s None, scanned @ localized @ release)
                 | (Next m1, localized) \<Rightarrow>
                     (case files_loop w path onnx_files m1 of
                        (OutOfRange, loaded) \<Rightarrow>
                          (UndefinedBehaviour, scanned @ localized @ loaded)
                      | (Return s, loaded) \<Rightarrow>
                          (Returns s None, scanned @ localized @ loaded @ release)
                      | (Next m2, loaded) \<Rightarrow>
                          (case construct_backend w path model_config
                                  min_compute_capability m2 of
                             (out, built) \<Rightarrow>
                               (out, scanned @ localized @ loaded @ built @ release)))))))"

subsection \<open>Create\<close>

text \<open>
  The generic configuration is a pointer to a \<open>BackendConfig\<close>; the object behind it
  either has the ONNX runtime shape (\<open>Config\<close>) or that of another backend.
  \<open>std::static_pointer_cast\<close> converts the pointer type without looking at the object.
\<close>

datatype ('c, 'o) BackendConfig = Config 'c | OtherBackendConfig 'o

definition compatible :: "('c, 'o) BackendConfig \<Rightarrow> bool" where
  "compatible cfg = (case cfg of Config c \<Rightarrow> True | OtherBackendConfig c \<Rightarrow> False)"

definition static_pointer_cast :: "('c, 'o) BackendConfig \<Rightarrow> ('c, 'o) BackendConfig" where
  "static_pointer_cast backend_config = backend_config"

record ('c, 'o) OnnxBackendFactory =
  backend_config_ :: "('c, 'o) BackendConfig"

text \<open>Lines 43 to 46: the destructor stops the loader.\<close>

definition destroy_OnnxBackendFactory :: "('c, 'o) OnnxBackendFactory \<Rightarrow> event list" where
  "destroy_OnnxBackendFactory f = [DeleteOnnxBackendFactory, CallOnnxLoaderStop]"

text \<open>
  Lines 48 to 63. The result is the status, the value of the output parameter
  \<open>factory\<close> (\<open>None\<close> when it was not assigned) and the trace. The verbose log
  line has no part in the result and is left out.
\<close>

definition Create ::
  "world \<Rightarrow> ('c, 'o) BackendConfig
    \<Rightarrow> Status \<times> ('c, 'o) OnnxBackendFactory option \<times> event list"
where
  "Create w backend_config =
     (let onnxruntime_backend_config = static_pointer_cast backend_config;
          local = \<lparr>backend_config_ = onnxruntime_backend_config\<rparr>
      in
      (case loader_init_status w of
         Failure msg \<Rightarrow>
           (Failure msg, None,
            [NewOnnxBackendFactory, CallOnnxLoaderInit (Failure msg)]
            @ destroy_OnnxBackendFactory local)
       | Success \<Rightarrow>
           (Success, Some local, [NewOnnxBackendFactory, CallOnnxLoaderInit Success])))"

subsection \<open>Traces of the loops\<close>

text \<open>
  The shape of what a loop went through: when it left through \<open>RETURN_IF_ERROR\<close>, the
  failing call is its last event and the first one that failed; otherwise no call
  failed.
\<close>

definition run_shape :: "control \<Rightarrow> event list \<Rightarrow> bool" where
  "run_shape c evs =
     (case c of
        Return s \<Rightarrow> s \<noteq> Success \<and> (\<exists>pre e. evs = pre @ [e] \<and> filter failed pre = [] \<and> call_status e = Some s)
      | _ \<Rightarrow> filter failed evs = [])"

subsection \<open>The steps in the words of the specification\<close>

text \<open>
  Section 4.2 of the specification as a second description of \<open>CreateBackend\<close>, to
  compare the code with. Steps 1 and 2: the non-hidden regular files and the
  non-hidden subdirectories of the model directory, each in sorted order.
\<close>

definition spec_files :: "world \<Rightarrow> string \<Rightarrow> string list" where
  "spec_files w path =
     sort (remdups (filter (\<lambda>n. is_regular_file w path n \<and> \<not> is_hidden w n)
       (map fst (dir_entries w path))))"

definition spec_subdirs :: "world \<Rightarrow> string \<Rightarrow> string list" where
  "spec_subdirs w path =
     sort (remdups (filter (\<lambda>n. is_subdir w path n \<and> \<not> is_hidden w n)
       (map fst (dir_entries w path))))"

text \<open>
  Step 3: the subdirectories are localized in order, the \<open>j\<close>-th into the store
  \<open>j\<close>, a store of its own, and recorded as localized entries. \<open>localize_steps\<close> lists
  the statuses the localizations return.
\<close>

fun localize_steps :: "world \<Rightarrow> string \<Rightarrow> nat \<Rightarrow> string list \<Rightarrow> Status list" where
  "localize_steps w path s [] = []"
| "localize_steps w path s (d # ds) =
     localize_status w (JoinPath w [path, d]) s # localize_steps w path (Suc s) ds"

fun localized_entries :: "world \<Rightarrow> nat \<Rightarrow> string list \<Rightarrow> models" where
  "localized_entries w s [] = []"
| "localized_entries w s (d # ds) = (d, False, temp_path w s) # localized_entries w (Suc s) ds"

text \<open>Step 4: the files are read in order and recorded as inline entries.\<close>

definition read_steps :: "world \<Rightarrow> string \<Rightarrow> string list \<Rightarrow> Status list" where
  "read_steps w path fs = map (\<lambda>f. read_status w (JoinPath w [path, f])) fs"

definition inline_entries :: "world \<Rightarrow> string \<Rightarrow> string list \<Rightarrow> models" where
  "inline_entries w path fs = map (\<lambda>f. (f, True, file_bytes w (JoinPath w [path, f]))) fs"

text \<open>The artifact map of steps 3 and 4, and the statuses of all steps in order.\<close>

definition spec_artifact_map :: "world \<Rightarrow> string \<Rightarrow> models" where
  "spec_artifact_map w path =
     localized_entries w 0 (spec_subdirs w path) @ inline_entries w path (spec_files w path)"

definition spec_step_statuses :: "world \<Rightarrow> string \<Rightarrow> Status list" where
  "spec_step_statuses w path =
     [scan_files_status w path, scan_subdirs_status w path]
     @ localize_steps w path 0 (spec_subdirs w path)
     @ read_steps w path (spec_files w path)
     @ [init_status w path, contexts_status w (spec_artifact_map w path)]"

text \<open>
  The same steps cut where the code can leave the specification: the scans and the
  localizations of the subdirectories that have a store, and what follows them.
\<close>

definition first_steps :: "world \<Rightarrow> string \<Rightarrow> Status list" where
  "first_steps w path =
     [scan_files_status w path, scan_subdirs_status w path]
     @ localize_steps w path 0 (take (length (spec_files w path)) (spec_subdirs w path))"

definition last_steps :: "world \<Rightarrow> string \<Rightarrow> Status list" where
  "last_steps w path =
     read_steps w path (spec_files w path)
     @ [init_status w path, contexts_status w (spec_artifact_map w path)]"

text \<open>
  The first status of a list that is not \<open>Success\<close>; the steps that run when every
  failure stops the pipeline; and the statuses of the calls of a trace.
\<close>

definition first_error :: "Status list \<Rightarrow> Status option" where
  "first_error ss = find (\<lambda>s. s \<noteq> Success) ss"

definition steps_run :: "Status list \<Rightarrow> Status list" where
  "steps_run ss = takeWhile (\<lambda>s. s = Success) ss @ take 1 (dropWhile (\<lambda>s. s = Success) ss)"

definition statuses_of :: "event list \<Rightarrow> Status list" where
  "statuses_of tr = concat (map (\<lambda>e. case call_status e of None \<Rightarrow> [] | Some s \<Rightarrow> [s]) tr)"

text \<open>
  Step 7: the first error is returned and no backend; with no error, the backend
  built in step 5 from the artifact map.
\<close>

definition spec_CreateBackend ::
  "world \<Rightarrow> string \<Rightarrow> 'mc \<Rightarrow> 'cc \<Rightarrow> ('mc, 'cc) OnnxBackend outcome"
where
  "spec_CreateBackend w path model_config min_compute_capability =
     (case first_error (spec_step_statuses w path) of
        Some e \<Rightarrow> Returns e None
      | None \<Rightarrow>
          Returns Success
            (Some \<lparr>min_compute_capability_ = min_compute_capability,
                   initialized = Some (path, model_config, kOnnxRuntimeOnnxPlatform w),
                   contexts = Some (spec_artifact_map w path)\<rparr>))"

subsection \<open>Example worlds\<close>

text \<open>
  A world in which every collaborator succeeds: the model directory \<open>/models/m\<close> has
  the given entries, the files have the given bytes, and hidden names begin with a dot.
\<close>

definition healthy_world :: "(string \<times> bool) list \<Rightarrow> (string \<times> string) list \<Rightarrow> world" where
  "healthy_world entries bytes =
     \<lparr>hidden_marker = CHR ''.'',
      dir_entries = (\<lambda>p. if p = ''/models/m'' then entries else []),
      file_bytes = (\<lambda>p. case map_of bytes p of None \<Rightarrow> [] | Some b \<Rightarrow> b),
      scan_files_status = (\<lambda>p. Success),
      scan_subdirs_status = (\<lambda>p. Success),
      localize_status = (\<lambda>p s. Success),
      read_status = (\<lambda>p. Success),
      temp_path = (\<lambda>s. ''/tmp/store'' @ replicate s CHR ''x''),
      init_status = (\<lambda>p. Success),
      contexts_status = (\<lambda>m. Success),
      loader_init_status = Success,
      JoinPath = (\<lambda>segments. case segments of [a, b] \<Rightarrow> a @ ''/'' @ b | _ \<Rightarrow> concat segments),
      kOnnxRuntimeOnnxPlatform = ''onnxruntime_onnx''\<rparr>"

text \<open>Ten bytes of binary data, a null byte among them.\<close>

definition ten_bytes :: string where
  "ten_bytes = [CHR 0x08, CHR 0x03, CHR 0x00, CHR 0x0D, CHR 0x0A, CHR 0xFF, CHR 0x1A,
                CHR 0x7F, CHR 0x80, CHR 0x41]"

section \<open>Properties\<close>

lemma emplace_keys: "fst ` set (emplace m k v) = insert k (fst ` set m)"
  by (auto simp: emplace_def)

lemma emplace_distinct: "distinct (map fst m) \<Longrightarrow> distinct (map fst (emplace m k v))"
  by (auto simp: emplace_def)

lemma emplace_mono: "set m \<subseteq> set (emplace m k v)"
  by (auto simp: emplace_def)

lemma emplace_entry: "e \<in> set (emplace m k v) \<Longrightarrow> e \<in> set m \<or> e = (k, v)"
  by (auto simp: emplace_def split: if_splits)

subsection \<open>What the two loops put into the map\<close>

lemma subdirs_loop_keys:
  "fst (subdirs_loop w path lo ds i m) = Next m' \<Longrightarrow> fst ` set m' = fst ` set m \<union> set ds"
proof (induction ds arbitrary: i m)
  case Nil
  then show ?case by simp
next
  case (Cons d ds)
  then show ?case
    by (auto simp: Let_def emplace_keys split: if_splits Status.splits)
qed

lemma subdirs_loop_distinct:
  "fst (subdirs_loop w path lo ds i m) = Next m' \<Longrightarrow> distinct (map fst m)
    \<Longrightarrow> distinct (map fst m')"
proof (induction ds arbitrary: i m)
  case Nil
  then show ?case by simp
next
  case (Cons d ds)
  then show ?case
    by (auto simp: Let_def emplace_distinct split: if_splits Status.splits)
qed

lemma subdirs_loop_entry:
  "fst (subdirs_loop w path lo ds i m) = Next m' \<Longrightarrow> (k, v) \<in> set m'
    \<Longrightarrow> (k, v) \<in> set m \<or> (k \<in> set ds \<and> fst v = False)"
proof (induction ds arbitrary: i m)
  case Nil
  then show ?case by simp
next
  case (Cons d ds)
  then show ?case
    by (fastforce simp: Let_def split: if_splits Status.splits dest: emplace_entry)
qed

lemma files_loop_keys:
  "fst (files_loop w path fs m) = Next m' \<Longrightarrow> fst ` set m' = fst ` set m \<union> set fs"
proof (induction fs arbitrary: m)
  case Nil
  then show ?case by simp
next
  case (Cons f fs)
  then show ?case
    by (auto simp: Let_def emplace_keys ReadTextFile_def split: if_splits Status.splits)
qed

lemma files_loop_distinct:
  "fst (files_loop w path fs m) = Next m' \<Longrightarrow> distinct (map fst m)
    \<Longrightarrow> distinct (map fst m')"
proof (induction fs arbitrary: m)
  case Nil
  then show ?case by simp
next
  case (Cons f fs)
  then show ?case
    by (auto simp: Let_def emplace_distinct ReadTextFile_def split: if_splits Status.splits)
qed

lemma files_loop_entry:
  "fst (files_loop w path fs m) = Next m' \<Longrightarrow> (k, v) \<in> set m'
    \<Longrightarrow> (k, v) \<in> set m
        \<or> (k \<in> set fs \<and> v = (True, file_bytes w (JoinPath w [path, k])))"
proof (induction fs arbitrary: m)
  case Nil
  then show ?case by simp
next
  case (Cons f fs)
  then show ?case
    by (fastforce simp: Let_def ReadTextFile_def split: if_splits Status.splits
          dest: emplace_entry)
qed

lemma files_loop_in_range: "fst (files_loop w path fs m) \<noteq> OutOfRange"
  by (induction fs arbitrary: m) (auto simp: Let_def ReadTextFile_def split: Status.splits)

subsection \<open>What the two loops go through\<close>

lemma subdirs_loop_events:
  "e \<in> set (snd (subdirs_loop w path lo ds i m)) \<Longrightarrow> \<exists>p k s. e = CallLocalizeFileFolder p k s"
proof (induction ds arbitrary: i m)
  case Nil
  then show ?case by simp
next
  case (Cons d ds)
  then show ?case
    by (auto simp: Let_def split: if_splits Status.splits)
qed

lemma files_loop_events:
  "e \<in> set (snd (files_loop w path fs m)) \<Longrightarrow> \<exists>p s. e = CallReadTextFile p s"
proof (induction fs arbitrary: m)
  case Nil
  then show ?case by simp
next
  case (Cons f fs)
  then show ?case
    by (auto simp: Let_def ReadTextFile_def split: if_splits Status.splits)
qed

lemma run_shape_Cons:
  "\<not> failed e \<Longrightarrow> run_shape c evs \<Longrightarrow> run_shape c (e # evs)"
  unfolding run_shape_def
  by (cases c) (auto intro: exI[where x = "e # pre" for pre])

lemma subdirs_loop_shape:
  "run_shape (fst (subdirs_loop w path lo ds i m)) (snd (subdirs_loop w path lo ds i m))"
proof (induction ds arbitrary: i m)
  case Nil
  then show ?case by (simp add: run_shape_def)
next
  case (Cons d ds)
  show ?case
  proof (cases "length lo \<le> i")
    case True
    then show ?thesis by (simp add: run_shape_def Let_def)
  next
    case False
    show ?thesis
    proof (cases "LocalizeFileFolder w (JoinPath w [path, d]) (lo ! i)")
      case Success
      with False Cons.IH show ?thesis
        by (simp add: Let_def run_shape_Cons failed_def)
    next
      case (Failure msg)
      with False show ?thesis
        by (simp add: Let_def run_shape_def)
    qed
  qed
qed

lemma files_loop_shape:
  "run_shape (fst (files_loop w path fs m)) (snd (files_loop w path fs m))"
proof (induction fs arbitrary: m)
  case Nil
  then show ?case by (simp add: run_shape_def)
next
  case (Cons f fs)
  show ?case
  proof (cases "read_status w (JoinPath w [path, f])")
    case Success
    with Cons.IH show ?thesis
      by (simp add: Let_def ReadTextFile_def run_shape_Cons failed_def)
  next
    case (Failure msg)
    then show ?thesis
      by (simp add: Let_def ReadTextFile_def run_shape_def)
  qed
qed

lemma subdirs_loop_range:
  "fst (subdirs_loop w path lo ds i m) = OutOfRange \<Longrightarrow> length lo < i + length ds"
proof (induction ds arbitrary: i m)
  case Nil
  then show ?case by simp
next
  case (Cons d ds)
  show ?case
  proof (cases "length lo \<le> i")
    case True
    then show ?thesis by simp
  next
    case False
    with Cons.prems
    have "fst (subdirs_loop w path lo ds (i + 1)
                 (emplace m d (False, model_path (lo ! i)))) = OutOfRange"
      by (simp add: Let_def split: Status.splits)
    from Cons.IH[OF this] show ?thesis by simp
  qed
qed

lemma subdirs_loop_Next_range:
  "fst (subdirs_loop w path lo ds i m) = Next m' \<Longrightarrow> ds = [] \<or> i + length ds \<le> length lo"
proof (induction ds arbitrary: i m)
  case Nil
  then show ?case by simp
next
  case (Cons d ds)
  show ?case
  proof (cases "length lo \<le> i")
    case True
    with Cons.prems show ?thesis by simp
  next
    case False
    with Cons.prems
    have "fst (subdirs_loop w path lo ds (i + 1)
                 (emplace m d (False, model_path (lo ! i)))) = Next m'"
      by (simp add: Let_def split: Status.splits)
    from Cons.IH[OF this] False show ?thesis by auto
  qed
qed

lemma construct_backend_cases:
  assumes "construct_backend w path mc cc m = (out, built)"
  obtains
    (init_failed) msg where
      "init_status w path = Failure msg"
      "out = Returns (Failure msg) None"
      "built = [NewOnnxBackend, CallInit path (Failure msg), DeleteOnnxBackend]"
  | (contexts_failed) msg where
      "init_status w path = Success"
      "contexts_status w m = Failure msg"
      "out = Returns (Failure msg) None"
      "built = [NewOnnxBackend, CallInit path Success,
                CallCreateExecutionContexts m (Failure msg), DeleteOnnxBackend]"
  | (succeeded)
      "init_status w path = Success"
      "contexts_status w m = Success"
      "out = Returns Success
               (Some \<lparr>min_compute_capability_ = cc,
                      initialized = Some (path, mc, kOnnxRuntimeOnnxPlatform w),
                      contexts = Some m\<rparr>)"
      "built = [NewOnnxBackend, CallInit path Success, CallCreateExecutionContexts m Success]"
proof (cases "init_status w path")
  case (Failure msg)
  with assms init_failed show ?thesis
    by (simp add: construct_backend_def Init_def)
next
  case Success
  show ?thesis
  proof (cases "contexts_status w m")
    case (Failure msg)
    with assms Success contexts_failed show ?thesis
      by (simp add: construct_backend_def Init_def CreateExecutionContexts_def)
  next
    case ok: Success
    with assms Success succeeded show ?thesis
      by (simp add: construct_backend_def Init_def CreateExecutionContexts_def
            new_OnnxBackend_def)
  qed
qed

lemma CreateBackend_cases:
  assumes "CreateBackend w path mc cc = (out, tr)"
  obtains
    (files_scan_failed) msg where
      "scan_files_status w path = Failure msg"
      "out = Returns (Failure msg) None"
      "tr = [CallGetDirectoryFiles path True (Failure msg)]"
  | (subdirs_scan_failed) msg where
      "scan_files_status w path = Success"
      "scan_subdirs_status w path = Failure msg"
      "out = Returns (Failure msg) None"
      "tr = [CallGetDirectoryFiles path True Success, CallGetDirectorySubdirs path (Failure msg)]"
  | (out_of_range) fs ds localized where
      "GetDirectoryFiles w path True = (Success, fs)"
      "GetDirectorySubdirs w path = (Success, ds)"
      "subdirs_loop w path (map (make_TemporaryDirectory w) [0..<length fs]) ds 0 []
         = (OutOfRange, localized)"
      "out = UndefinedBehaviour"
      "tr = [CallGetDirectoryFiles path True Success, CallGetDirectorySubdirs path Success]
            @ map NewTemporaryDirectory [0..<length fs] @ localized"
  | (localize_failed) fs ds s localized where
      "GetDirectoryFiles w path True = (Success, fs)"
      "GetDirectorySubdirs w path = (Success, ds)"
      "subdirs_loop w path (map (make_TemporaryDirectory w) [0..<length fs]) ds 0 []
         = (Return s, localized)"
      "out = Returns s None"
      "tr = [CallGetDirectoryFiles path True Success, CallGetDirectorySubdirs path Success]
            @ map NewTemporaryDirectory [0..<length fs] @ localized
            @ map DeleteTemporaryDirectory [0..<length fs]"
  | (read_failed) fs ds m1 localized s loaded where
      "GetDirectoryFiles w path True = (Success, fs)"
      "GetDirectorySubdirs w path = (Success, ds)"
      "subdirs_loop w path (map (make_TemporaryDirectory w) [0..<length fs]) ds 0 []
         = (Next m1, localized)"
      "files_loop w path fs m1 = (Return s, loaded)"
      "out = Returns s None"
      "tr = [CallGetDirectoryFiles path True Success, CallGetDirectorySubdirs path Success]
            @ map NewTemporaryDirectory [0..<length fs] @ localized @ loaded
            @ map DeleteTemporaryDirectory [0..<length fs]"
  | (resolved) fs ds m1 localized m2 loaded built where
      "GetDirectoryFiles w path True = (Success, fs)"
      "GetDirectorySubdirs w path = (Success, ds)"
      "subdirs_loop w path (map (make_TemporaryDirectory w) [0..<length fs]) ds 0 []
         = (Next m1, localized)"
      "files_loop w path fs m1 = (Next m2, loaded)"
      "construct_backend w path mc cc m2 = (out, built)"
      "tr = [CallGetDirectoryFiles path True Success, CallGetDirectorySubdirs path Success]
            @ map NewTemporaryDirectory [0..<length fs] @ localized @ loaded @ built
            @ map DeleteTemporaryDirectory [0..<length fs]"
proof (cases "scan_files_status w path")
  case (Failure msg)
  with assms files_scan_failed show ?thesis
    by (simp add: CreateBackend_def GetDirectoryFiles_def)
next
  case Success
  then obtain fs where fs: "GetDirectoryFiles w path True = (Success, fs)"
    by (simp add: GetDirectoryFiles_def)
  show ?thesis
  proof (cases "scan_subdirs_status w path")
    case (Failure msg)
    with assms fs Success subdirs_scan_failed show ?thesis
      by (simp add: CreateBackend_def GetDirectorySubdirs_def)
  next
    case ok: Success
    then obtain ds where ds: "GetDirectorySubdirs w path = (Success, ds)"
      by (simp add: GetDirectorySubdirs_def)
    obtain c1 localized where
      l1: "subdirs_loop w path (map (make_TemporaryDirectory w) [0..<length fs]) ds 0 []
             = (c1, localized)"
      by (cases "subdirs_loop w path (map (make_TemporaryDirectory w) [0..<length fs]) ds 0 []")
    show ?thesis
    proof (cases c1)
      case OutOfRange
      with assms fs ds l1 out_of_range show ?thesis
        by (simp add: CreateBackend_def Let_def)
    next
      case (Return s)
      with assms fs ds l1 localize_failed show ?thesis
        by (simp add: CreateBackend_def Let_def)
    next
      case (Next m1)
      obtain c2 loaded where l2: "files_loop w path fs m1 = (c2, loaded)"
        by (cases "files_loop w path fs m1")
      show ?thesis
      proof (cases c2)
        case OutOfRange
        with l2 files_loop_in_range[of w path fs m1] show ?thesis by simp
      next
        case (Return s)
        with assms fs ds l1 l2 Next read_failed show ?thesis
          by (simp add: CreateBackend_def Let_def)
      next
        case n2: (Next m2)
        obtain o3 built where l3: "construct_backend w path mc cc m2 = (o3, built)"
          by (cases "construct_backend w path mc cc m2")
        with assms fs ds l1 l2 Next n2 resolved show ?thesis
          by (simp add: CreateBackend_def Let_def)
      qed
    qed
  qed
qed

subsection \<open>The scans and the map handed to the backend\<close>

lemma GetDirectoryFiles_Success:
  assumes "GetDirectoryFiles w path True = (Success, fs)"
  shows "set fs = {n. is_regular_file w path n \<and> \<not> is_hidden w n}" and "distinct fs"
proof -
  from assms have fs:
    "fs = sort (remdups (filter (\<lambda>n. is_regular_file w path n \<and> \<not> (True \<and> is_hidden w n))
                 (map fst (dir_entries w path))))"
    by (simp add: GetDirectoryFiles_def split: Status.splits)
  have "is_regular_file w path n \<Longrightarrow> n \<in> fst ` set (dir_entries w path)" for n
    unfolding is_regular_file_def by (metis map_of_SomeD fst_conv image_eqI)
  then show "set fs = {n. is_regular_file w path n \<and> \<not> is_hidden w n}"
    unfolding fs by auto
  show "distinct fs" unfolding fs by simp
qed

lemma GetDirectorySubdirs_Success:
  assumes "GetDirectorySubdirs w path = (Success, ds)"
  shows "set ds = {n. is_subdir w path n \<and> \<not> is_hidden w n}" and "distinct ds"
proof -
  from assms have ds:
    "ds = sort (remdups (filter (\<lambda>n. is_subdir w path n \<and> \<not> is_hidden w n)
                 (map fst (dir_entries w path))))"
    by (simp add: GetDirectorySubdirs_def split: Status.splits)
  have "is_subdir w path n \<Longrightarrow> n \<in> fst ` set (dir_entries w path)" for n
    unfolding is_subdir_def by (metis map_of_SomeD fst_conv image_eqI)
  then show "set ds = {n. is_subdir w path n \<and> \<not> is_hidden w n}"
    unfolding ds by auto
  show "distinct ds" unfolding ds by simp
qed

lemma file_is_no_subdir: "is_regular_file w path n \<Longrightarrow> \<not> is_subdir w path n"
  by (simp add: is_regular_file_def is_subdir_def)

lemma concat_map_empty: "(\<And>e. e \<in> set evs \<Longrightarrow> f e = []) \<Longrightarrow> concat (map f evs) = []"
  by (induction evs) auto

lemma maps_handed_over_append [simp]:
  "maps_handed_over (a @ b) = maps_handed_over a @ maps_handed_over b"
  by (simp add: maps_handed_over_def)

lemma maps_handed_over_Nil [simp]: "maps_handed_over [] = []"
  by (simp add: maps_handed_over_def)

lemma maps_handed_over_Cons [simp]:
  "maps_handed_over (e # es) =
     (case e of CallCreateExecutionContexts m st \<Rightarrow> [m] | _ \<Rightarrow> []) @ maps_handed_over es"
  by (simp add: maps_handed_over_def)

lemma maps_handed_over_subdirs_loop [simp]:
  "maps_handed_over (snd (subdirs_loop w path lo ds i m)) = []"
  unfolding maps_handed_over_def
  by (rule concat_map_empty) (auto dest: subdirs_loop_events)

lemma maps_handed_over_files_loop [simp]:
  "maps_handed_over (snd (files_loop w path fs m)) = []"
  unfolding maps_handed_over_def
  by (rule concat_map_empty) (auto dest: files_loop_events)

lemma maps_handed_over_alloc [simp]:
  "maps_handed_over (map NewTemporaryDirectory xs) = []"
  "maps_handed_over (map DeleteTemporaryDirectory xs) = []"
  unfolding maps_handed_over_def
  by (rule concat_map_empty; auto)+

lemma handed_over_resolved:
  assumes "CreateBackend w path mc cc = (out, tr)" and "m \<in> set (maps_handed_over tr)"
  obtains fs ds m1 where
    "GetDirectoryFiles w path True = (Success, fs)"
    "GetDirectorySubdirs w path = (Success, ds)"
    "fst (subdirs_loop w path (map (make_TemporaryDirectory w) [0..<length fs]) ds 0 [])
       = Next m1"
    "fst (files_loop w path fs m1) = Next m"
using assms(1)
proof (cases rule: CreateBackend_cases)
  case (files_scan_failed msg)
  with assms(2) show ?thesis by simp
next
  case (subdirs_scan_failed msg)
  with assms(2) show ?thesis by simp
next
  case (out_of_range fs ds localized)
  from out_of_range(3) have "localized = snd (subdirs_loop w path (map (make_TemporaryDirectory w) [0..<length fs]) ds 0 [])" by simp
  with assms(2) out_of_range(5) show ?thesis by simp
next
  case (localize_failed fs ds s localized)
  from localize_failed(3) have "localized = snd (subdirs_loop w path (map (make_TemporaryDirectory w) [0..<length fs]) ds 0 [])" by simp
  with assms(2) localize_failed(5) show ?thesis by simp
next
  case (read_failed fs ds m1 localized s loaded)
  from read_failed(3) have "localized = snd (subdirs_loop w path (map (make_TemporaryDirectory w) [0..<length fs]) ds 0 [])" by simp
  moreover from read_failed(4) have "loaded = snd (files_loop w path fs m1)" by simp
  ultimately show ?thesis using assms(2) read_failed(6) by simp
next
  case (resolved fs ds m1 localized m2 loaded built)
  from resolved(3) have l: "localized = snd (subdirs_loop w path (map (make_TemporaryDirectory w) [0..<length fs]) ds 0 [])" by simp
  from resolved(4) have r: "loaded = snd (files_loop w path fs m1)" by simp
  from assms(2) have "m \<in> set (maps_handed_over built)"
    unfolding resolved(6) l r by simp
  with resolved(5) have "m = m2"
    by (cases rule: construct_backend_cases) auto
  with that[OF resolved(1) resolved(2)] resolved(3) resolved(4) show ?thesis by simp
qed

lemma handed_over_map:
  assumes "CreateBackend w path mc cc = (out, tr)" and "m \<in> set (maps_handed_over tr)"
  shows "distinct (map fst m)"
    and "fst ` set m = {n. (is_regular_file w path n \<or> is_subdir w path n) \<and> \<not> is_hidden w n}"
    and "(k, v) \<in> set m \<Longrightarrow>
           (is_subdir w path k \<and> \<not> is_hidden w k \<and> fst v = False)
           \<or> (is_regular_file w path k \<and> \<not> is_hidden w k
               \<and> v = (True, file_bytes w (JoinPath w [path, k])))"
proof -
  from assms obtain fs ds m1 where
    fs: "GetDirectoryFiles w path True = (Success, fs)" and
    ds: "GetDirectorySubdirs w path = (Success, ds)" and
    l1: "fst (subdirs_loop w path (map (make_TemporaryDirectory w) [0..<length fs]) ds 0 [])
       = Next m1" and
    l2: "fst (files_loop w path fs m1) = Next m"
    by (rule handed_over_resolved)
  note sfs = GetDirectoryFiles_Success[OF fs] and sds = GetDirectorySubdirs_Success[OF ds]
  from subdirs_loop_distinct[OF l1] have "distinct (map fst m1)" by simp
  with files_loop_distinct[OF l2] show "distinct (map fst m)" by simp
  from subdirs_loop_keys[OF l1] files_loop_keys[OF l2] sfs(1) sds(1)
  show "fst ` set m = {n. (is_regular_file w path n \<or> is_subdir w path n) \<and> \<not> is_hidden w n}"
    by auto
  assume "(k, v) \<in> set m"
  from files_loop_entry[OF l2 this] subdirs_loop_entry[OF l1, of k v] sfs(1) sds(1)
  show "(is_subdir w path k \<and> \<not> is_hidden w k \<and> fst v = False)
           \<or> (is_regular_file w path k \<and> \<not> is_hidden w k
               \<and> v = (True, file_bytes w (JoinPath w [path, k])))"
    by auto
qed

subsection \<open>Failures in a trace\<close>

lemma no_failure_conv: "filter failed evs = [] \<longleftrightarrow> (\<forall>e \<in> set evs. \<not> failed e)"
  by (simp add: filter_empty_conv)

lemma first_failure_none: "filter failed evs = [] \<Longrightarrow> first_failure evs = None"
  by (simp add: first_failure_def)

lemma first_failure_skip:
  "filter failed a = [] \<Longrightarrow> first_failure (a @ b) = first_failure b"
  by (simp add: first_failure_def)

lemma after_failure_skip:
  "filter failed a = [] \<Longrightarrow> after_failure (a @ b) = after_failure b"
  by (simp add: after_failure_def no_failure_conv dropWhile_append2)

lemma first_failure_hit: "failed e \<Longrightarrow> first_failure (e # b) = call_status e"
  by (simp add: first_failure_def)

lemma after_failure_hit: "failed e \<Longrightarrow> after_failure (e # b) = b"
  by (simp add: after_failure_def)

lemma failed_iff: "failed e \<longleftrightarrow> (\<exists>msg. call_status e = Some (Failure msg))"
  by (auto simp: failed_def split: option.splits Status.splits)

lemma no_failure_alloc [simp]: "filter failed (map NewTemporaryDirectory xs) = []"
  by (simp add: no_failure_conv failed_def)

lemma cleanup_release [simp]: "list_all is_cleanup (map DeleteTemporaryDirectory xs)"
  by (simp add: list_all_iff)

lemma run_shape_Return:
  assumes "run_shape (Return s) evs"
  obtains pre e msg where "evs = pre @ [e]" "filter failed pre = []" "failed e"
    "call_status e = Some s" "s = Failure msg"
proof -
  from assms obtain pre e where *: "s \<noteq> Success" "evs = pre @ [e]" "filter failed pre = []"
    "call_status e = Some s"
    by (auto simp: run_shape_def)
  from *(1) obtain msg where "s = Failure msg" by (cases s) auto
  with * that show ?thesis by (auto simp: failed_iff)
qed

lemma failing_run:
  assumes "run_shape (Return s) evs" and "filter failed before = []"
  shows "first_failure (before @ evs @ rest) = Some s"
    and "after_failure (before @ evs @ rest) = rest"
    and "s \<noteq> Success"
proof -
  from assms(1) obtain pre e msg where *: "evs = pre @ [e]" "filter failed pre = []" "failed e"
    "call_status e = Some s" "s = Failure msg"
    by (rule run_shape_Return)
  have ok: "filter failed (before @ pre) = []" using assms(2) *(2) by simp
  have eq: "before @ evs @ rest = (before @ pre) @ e # rest" using *(1) by simp
  show "first_failure (before @ evs @ rest) = Some s"
    unfolding eq first_failure_skip[OF ok] using * by (simp add: first_failure_hit)
  show "after_failure (before @ evs @ rest) = rest"
    unfolding eq after_failure_skip[OF ok] using * by (simp add: after_failure_hit)
  show "s \<noteq> Success" using * by simp
qed

subsection \<open>Stores in a trace\<close>

lemma stores_allocated_simps [simp]:
  "stores_allocated [] = []"
  "stores_allocated (e # es) =
     (case e of NewTemporaryDirectory s \<Rightarrow> [s] | _ \<Rightarrow> []) @ stores_allocated es"
  "stores_allocated (a @ b) = stores_allocated a @ stores_allocated b"
  "stores_allocated (map NewTemporaryDirectory xs) = xs"
  "stores_allocated (map DeleteTemporaryDirectory xs) = []"
  by (induction xs) (simp_all add: stores_allocated_def)

lemma stores_released_simps [simp]:
  "stores_released [] = []"
  "stores_released (e # es) =
     (case e of DeleteTemporaryDirectory s \<Rightarrow> [s] | _ \<Rightarrow> []) @ stores_released es"
  "stores_released (a @ b) = stores_released a @ stores_released b"
  "stores_released (map DeleteTemporaryDirectory xs) = xs"
  "stores_released (map NewTemporaryDirectory xs) = []"
  by (induction xs) (simp_all add: stores_released_def)

lemma stores_used_simps [simp]:
  "stores_used [] = []"
  "stores_used (e # es) =
     (case e of CallLocalizeFileFolder p s st \<Rightarrow> [s] | _ \<Rightarrow> []) @ stores_used es"
  "stores_used (a @ b) = stores_used a @ stores_used b"
  "stores_used (map DeleteTemporaryDirectory xs) = []"
  "stores_used (map NewTemporaryDirectory xs) = []"
  by (induction xs) (simp_all add: stores_used_def)

lemma stores_of_subdirs_loop [simp]:
  "stores_allocated (snd (subdirs_loop w path lo ds i m)) = []"
  "stores_released (snd (subdirs_loop w path lo ds i m)) = []"
  unfolding stores_allocated_def stores_released_def
  by (rule concat_map_empty; auto dest: subdirs_loop_events)+

lemma stores_of_files_loop [simp]:
  "stores_allocated (snd (files_loop w path fs m)) = []"
  "stores_released (snd (files_loop w path fs m)) = []"
  "stores_used (snd (files_loop w path fs m)) = []"
  unfolding stores_allocated_def stores_released_def stores_used_def
  by (rule concat_map_empty; auto dest: files_loop_events)+

lemma stores_of_construct_backend:
  assumes "construct_backend w path mc cc m = (out, built)"
  shows "stores_allocated built = []" "stores_released built = []" "stores_used built = []"
    "\<forall>e \<in> set built. \<not> is_release e"
    "\<forall>e \<in> set built. \<not> (\<exists>s. e = NewTemporaryDirectory s)"
  using assms by (cases rule: construct_backend_cases; simp)+

lemma no_release_in_loops:
  "\<forall>e \<in> set (snd (subdirs_loop w path lo ds i m)). \<not> is_release e"
  "\<forall>e \<in> set (snd (files_loop w path fs m)). \<not> is_release e"
  by (auto dest: subdirs_loop_events files_loop_events)

text \<open>Two kinds of events that live in the two halves of a trace come in that order.\<close>

lemma ordered_segments:
  assumes "\<forall>e \<in> set a. \<not> Q e" and "\<forall>e \<in> set b. \<not> P e"
    and "i < length (a @ b)" and "j < length (a @ b)"
    and "P ((a @ b) ! i)" and "Q ((a @ b) ! j)"
  shows "i < j"
proof -
  have "i < length a"
  proof (rule ccontr)
    assume "\<not> i < length a"
    with assms(3,5) have "P (b ! (i - length a))" "i - length a < length b"
      by (auto simp: nth_append)
    with assms(2) show False by (metis nth_mem)
  qed
  moreover have "length a \<le> j"
  proof (rule ccontr)
    assume "\<not> length a \<le> j"
    with assms(6) have "Q (a ! j)" "j < length a" by (auto simp: nth_append)
    with assms(1) show False by (metis nth_mem)
  qed
  ultimately show ?thesis by simp
qed

subsection \<open>The stores the subdirectory loop uses\<close>

lemma upt_first: "[i..<i + Suc k] = i # [i + 1..<i + 1 + k]"
  by (subst upt_rec) simp

lemma subdirs_loop_stores_used:
  "i \<le> length lo \<Longrightarrow>
     \<exists>k. k \<le> length ds \<and> i + k \<le> length lo
        \<and> stores_used (snd (subdirs_loop w path lo ds i m))
            = map (\<lambda>j. store_id (lo ! j)) [i..<i + k]"
proof (induction ds arbitrary: i m)
  case Nil
  then show ?case by simp
next
  case (Cons d ds)
  show ?case
  proof (cases "length lo \<le> i")
    case True
    with Cons.prems show ?thesis by (intro exI[of _ 0]) simp
  next
    case False
    show ?thesis
    proof (cases "LocalizeFileFolder w (JoinPath w [path, d]) (lo ! i)")
      case (Failure msg)
      with False show ?thesis by (intro exI[of _ 1]) (simp add: Let_def)
    next
      case Success
      let ?r = "subdirs_loop w path lo ds (i + 1) (emplace m d (False, model_path (lo ! i)))"
      from False have "i + 1 \<le> length lo" by simp
      from Cons.IH[OF this, of "emplace m d (False, model_path (lo ! i))"]
      obtain k where k: "k \<le> length ds" "i + 1 + k \<le> length lo"
        "stores_used (snd ?r) = map (\<lambda>j. store_id (lo ! j)) [i + 1..<i + 1 + k]"
        by blast
      have "stores_used (snd (subdirs_loop w path lo (d # ds) i m))
              = store_id (lo ! i) # stores_used (snd ?r)"
        using False Success by (simp add: Let_def)
      also have "\<dots> = map (\<lambda>j. store_id (lo ! j)) [i..<i + Suc k]"
        unfolding k(3) upt_first by simp
      finally show ?thesis using k(1,2) by (intro exI[of _ "Suc k"]) simp
    qed
  qed
qed

lemma subdirs_loop_stores_used_Next:
  "fst (subdirs_loop w path lo ds i m) = Next m' \<Longrightarrow>
     stores_used (snd (subdirs_loop w path lo ds i m))
       = map (\<lambda>j. store_id (lo ! j)) [i..<i + length ds]"
proof (induction ds arbitrary: i m)
  case Nil
  then show ?case by simp
next
  case (Cons d ds)
  show ?case
  proof (cases "length lo \<le> i")
    case True
    with Cons.prems show ?thesis by simp
  next
    case False
    let ?r = "subdirs_loop w path lo ds (i + 1) (emplace m d (False, model_path (lo ! i)))"
    from Cons.prems False
    have ok: "LocalizeFileFolder w (JoinPath w [path, d]) (lo ! i) = Success"
      and nxt: "fst ?r = Next m'"
      by (simp_all add: Let_def split: Status.splits)
    have "stores_used (snd (subdirs_loop w path lo (d # ds) i m))
            = store_id (lo ! i) # stores_used (snd ?r)"
      using False ok by (simp add: Let_def)
    also have "\<dots> = map (\<lambda>j. store_id (lo ! j)) [i..<i + Suc (length ds)]"
      unfolding Cons.IH[OF nxt] upt_first by simp
    finally show ?thesis by simp
  qed
qed

lemma store_ids_allocated:
  "k \<le> n \<Longrightarrow> map (\<lambda>j. store_id (map (make_TemporaryDirectory w) [0..<n] ! j)) [0..<k] = [0..<k]"
  by (intro nth_equalityI) (simp_all add: make_TemporaryDirectory_def)

subsection \<open>The code against the steps of the specification\<close>

lemma first_error_simps [simp]:
  "first_error [] = None"
  "first_error (s # ss) = (if s = Success then first_error ss else Some s)"
  by (simp_all add: first_error_def)

lemma steps_run_simps [simp]:
  "steps_run [] = []"
  "steps_run (s # ss) = (if s = Success then s # steps_run ss else [s])"
  by (simp_all add: steps_run_def)

lemma first_error_append:
  "first_error (a @ b) = (case first_error a of None \<Rightarrow> first_error b | Some e \<Rightarrow> Some e)"
  by (induction a) auto

lemma steps_run_append:
  "steps_run (a @ b) = (case first_error a of None \<Rightarrow> a @ steps_run b | Some e \<Rightarrow> steps_run a)"
  by (induction a) (auto split: option.splits)

lemma first_error_not_Success: "first_error ss \<noteq> Some Success"
  by (induction ss) auto

lemma statuses_of_simps [simp]:
  "statuses_of [] = []"
  "statuses_of (e # es) = (case call_status e of None \<Rightarrow> [] | Some s \<Rightarrow> [s]) @ statuses_of es"
  "statuses_of (a @ b) = statuses_of a @ statuses_of b"
  "statuses_of (map NewTemporaryDirectory xs) = []"
  "statuses_of (map DeleteTemporaryDirectory xs) = []"
  by (induction xs) (simp_all add: statuses_of_def)

lemma localized_entries_keys [simp]: "map fst (localized_entries w s ds) = ds"
  by (induction ds arbitrary: s) auto

lemma inline_entries_keys [simp]: "map fst (inline_entries w path fs) = fs"
  by (simp add: inline_entries_def comp_def)

lemma emplace_fresh: "k \<notin> fst ` set m \<Longrightarrow> emplace m k v = m @ [(k, v)]"
  by (simp add: emplace_def)

lemma subdirs_loop_closed:
  assumes "distinct ds" and "set ds \<inter> fst ` set m0 = {}"
  shows "fst (subdirs_loop w path (map (make_TemporaryDirectory w) [0..<n]) ds i m0) =
           (case first_error (localize_steps w path i (take (n - i) ds)) of
              Some e \<Rightarrow> Return e
            | None \<Rightarrow> if length ds \<le> n - i then Next (m0 @ localized_entries w i ds)
                      else OutOfRange)
       \<and> statuses_of (snd (subdirs_loop w path (map (make_TemporaryDirectory w) [0..<n]) ds i m0))
           = steps_run (localize_steps w path i (take (n - i) ds))"
  using assms
proof (induction ds arbitrary: i m0)
  case Nil
  then show ?case by simp
next
  case (Cons d ds)
  let ?lo = "map (make_TemporaryDirectory w) [0..<n]"
  show ?case
  proof (cases "n \<le> i")
    case True
    then show ?thesis by simp
  next
    case False
    then have i: "i < n" by simp
    then have nth: "?lo ! i = make_TemporaryDirectory w i" by simp
    from i have tk: "take (n - i) (d # ds) = d # take (n - Suc i) ds"
      by (cases "n - i") (simp_all, metis Suc_diff_Suc Suc_inject)
    have loc: "LocalizeFileFolder w (JoinPath w [path, d]) (?lo ! i)
                 = localize_status w (JoinPath w [path, d]) i"
      unfolding nth by (simp add: LocalizeFileFolder_def make_TemporaryDirectory_def)
    show ?thesis
    proof (cases "localize_status w (JoinPath w [path, d]) i")
      case (Failure msg)
      with i loc show ?thesis unfolding tk by (simp add: Let_def)
    next
      case Success
      let ?m = "emplace m0 d (False, model_path (?lo ! i))"
      from Cons.prems have fresh: "d \<notin> fst ` set m0" by auto
      then have m: "?m = m0 @ [(d, False, temp_path w i)]"
        unfolding nth by (simp add: emplace_fresh make_TemporaryDirectory_def)
      from Cons.prems have "distinct ds" "set ds \<inter> fst ` set ?m = {}"
        unfolding m by auto
      from Cons.IH[OF this, of "Suc i"]
      have IH: "fst (subdirs_loop w path ?lo ds (Suc i) ?m) =
           (case first_error (localize_steps w path (Suc i) (take (n - Suc i) ds)) of
              Some e \<Rightarrow> Return e
            | None \<Rightarrow> if length ds \<le> n - Suc i then Next (?m @ localized_entries w (Suc i) ds)
                      else OutOfRange)"
        "statuses_of (snd (subdirs_loop w path ?lo ds (Suc i) ?m))
           = steps_run (localize_steps w path (Suc i) (take (n - Suc i) ds))"
        by simp_all
      have len: "length (d # ds) \<le> n - i \<longleftrightarrow> length ds \<le> n - Suc i" using i by auto
      have step: "subdirs_loop w path ?lo (d # ds) i m0 =
          apsnd ((#) (CallLocalizeFileFolder (JoinPath w [path, d]) (store_id (?lo ! i)) Success))
            (subdirs_loop w path ?lo ds (Suc i) ?m)"
        using i loc Success by (simp add: Let_def)
      show ?thesis
        unfolding step tk len using IH Success
        by (simp add: m split: option.splits)
    qed
  qed
qed

lemma files_loop_closed:
  assumes "distinct fs" and "set fs \<inter> fst ` set m0 = {}"
  shows "fst (files_loop w path fs m0) =
           (case first_error (read_steps w path fs) of
              Some e \<Rightarrow> Return e
            | None \<Rightarrow> Next (m0 @ inline_entries w path fs))
       \<and> statuses_of (snd (files_loop w path fs m0)) = steps_run (read_steps w path fs)"
  using assms
proof (induction fs arbitrary: m0)
  case Nil
  then show ?case by (simp add: read_steps_def inline_entries_def)
next
  case (Cons f fs)
  show ?case
  proof (cases "read_status w (JoinPath w [path, f])")
    case (Failure msg)
    then show ?thesis by (simp add: Let_def ReadTextFile_def read_steps_def)
  next
    case Success
    let ?m = "emplace m0 f (True, file_bytes w (JoinPath w [path, f]))"
    from Cons.prems have "f \<notin> fst ` set m0" by auto
    then have m: "?m = m0 @ [(f, True, file_bytes w (JoinPath w [path, f]))]"
      by (simp add: emplace_fresh)
    from Cons.prems have "distinct fs" "set fs \<inter> fst ` set ?m = {}"
      unfolding m by auto
    from Cons.IH[OF this] Success show ?thesis
      by (simp add: Let_def ReadTextFile_def read_steps_def inline_entries_def m
            split: option.splits)
  qed
qed

lemma GetDirectoryFiles_spec:
  "GetDirectoryFiles w path True =
     (case scan_files_status w path of
        Failure msg \<Rightarrow> (Failure msg, [])
      | Success \<Rightarrow> (Success, spec_files w path))"
  by (cases "scan_files_status w path") (simp_all add: GetDirectoryFiles_def spec_files_def)

lemma GetDirectorySubdirs_spec:
  "GetDirectorySubdirs w path =
     (case scan_subdirs_status w path of
        Failure msg \<Rightarrow> (Failure msg, [])
      | Success \<Rightarrow> (Success, spec_subdirs w path))"
  by (cases "scan_subdirs_status w path")
     (simp_all add: GetDirectorySubdirs_def spec_subdirs_def)

lemma spec_scans:
  "distinct (spec_files w path)" "distinct (spec_subdirs w path)"
  "set (spec_subdirs w path) \<inter> set (spec_files w path) = {}"
  by (auto simp: spec_files_def spec_subdirs_def dest: file_is_no_subdir)

lemma scans_Success:
  "GetDirectoryFiles w path True = (Success, fs)
     \<Longrightarrow> scan_files_status w path = Success \<and> fs = spec_files w path"
  "GetDirectorySubdirs w path = (Success, ds)
     \<Longrightarrow> scan_subdirs_status w path = Success \<and> ds = spec_subdirs w path"
  by (auto simp: GetDirectoryFiles_spec GetDirectorySubdirs_spec split: Status.splits)

lemma construct_backend_closed:
  "fst (construct_backend w path mc cc m) =
     (case first_error [init_status w path, contexts_status w m] of
        Some e \<Rightarrow> Returns e None
      | None \<Rightarrow>
          Returns Success
            (Some \<lparr>min_compute_capability_ = cc,
                   initialized = Some (path, mc, kOnnxRuntimeOnnxPlatform w),
                   contexts = Some m\<rparr>))
   \<and> statuses_of (snd (construct_backend w path mc cc m))
       = steps_run [init_status w path, contexts_status w m]"
  by (cases "init_status w path"; cases "contexts_status w m")
     (simp_all add: construct_backend_def Init_def CreateExecutionContexts_def
        new_OnnxBackend_def)

text \<open>What the code does, for every model directory.\<close>

lemma CreateBackend_closed:
  "fst (CreateBackend w path mc cc) =
     (case first_error (first_steps w path) of
        Some e \<Rightarrow> Returns e None
      | None \<Rightarrow>
          if length (spec_files w path) < length (spec_subdirs w path) then UndefinedBehaviour
          else (case first_error (last_steps w path) of
                  Some e \<Rightarrow> Returns e None
                | None \<Rightarrow>
                    Returns Success
                      (Some \<lparr>min_compute_capability_ = cc,
                             initialized = Some (path, mc, kOnnxRuntimeOnnxPlatform w),
                             contexts = Some (spec_artifact_map w path)\<rparr>)))
   \<and> statuses_of (snd (CreateBackend w path mc cc)) =
       steps_run (first_steps w path
                  @ (if length (spec_files w path) < length (spec_subdirs w path) then []
                     else last_steps w path))"
proof -
  let ?fs = "spec_files w path" and ?ds = "spec_subdirs w path"
  let ?lo = "map (make_TemporaryDirectory w) [0..<length ?fs]"
  let ?loc = "localize_steps w path 0 (take (length ?fs) ?ds)"
  let ?m1 = "localized_entries w 0 ?ds"
  let ?m2 = "spec_artifact_map w path"
  have "fst (subdirs_loop w path ?lo ?ds 0 []) =
       (case first_error (localize_steps w path 0 (take (length ?fs - 0) ?ds)) of
          Some e \<Rightarrow> Return e
        | None \<Rightarrow> if length ?ds \<le> length ?fs - 0 then Next ([] @ ?m1) else OutOfRange)
     \<and> statuses_of (snd (subdirs_loop w path ?lo ?ds 0 []))
         = steps_run (localize_steps w path 0 (take (length ?fs - 0) ?ds))"
    by (rule subdirs_loop_closed) (simp_all add: spec_scans(2))
  then have sub:
    "fst (subdirs_loop w path ?lo ?ds 0 []) =
       (case first_error ?loc of
          Some e \<Rightarrow> Return e
        | None \<Rightarrow> if length ?ds \<le> length ?fs then Next ?m1 else OutOfRange)"
    "statuses_of (snd (subdirs_loop w path ?lo ?ds 0 [])) = steps_run ?loc"
    unfolding diff_zero append_Nil by simp_all
  have "set ?fs \<inter> fst ` set ?m1 = {}"
    using spec_scans(3)[of w path] localized_entries_keys[of w 0 ?ds]
    by (metis Int_commute set_map)
  from files_loop_closed[OF spec_scans(1) this, of w path]
  have fil:
    "fst (files_loop w path ?fs ?m1) =
       (case first_error (read_steps w path ?fs) of
          Some e \<Rightarrow> Return e
        | None \<Rightarrow> Next ?m2)"
    "statuses_of (snd (files_loop w path ?fs ?m1)) = steps_run (read_steps w path ?fs)"
    unfolding spec_artifact_map_def by simp_all
  have fst_steps: "first_error (first_steps w path) = first_error ?loc"
    "steps_run (first_steps w path @ rest) = Success # Success # steps_run (?loc @ rest)"
    if "scan_files_status w path = Success" "scan_subdirs_status w path = Success" for rest
    using that by (simp_all add: first_steps_def)
  obtain out tr where run: "CreateBackend w path mc cc = (out, tr)"
    by (cases "CreateBackend w path mc cc")
  have "out =
     (case first_error (first_steps w path) of
        Some e \<Rightarrow> Returns e None
      | None \<Rightarrow>
          if length ?fs < length ?ds then UndefinedBehaviour
          else (case first_error (last_steps w path) of
                  Some e \<Rightarrow> Returns e None
                | None \<Rightarrow>
                    Returns Success
                      (Some \<lparr>min_compute_capability_ = cc,
                             initialized = Some (path, mc, kOnnxRuntimeOnnxPlatform w),
                             contexts = Some ?m2\<rparr>)))
   \<and> statuses_of tr =
       steps_run (first_steps w path @ (if length ?fs < length ?ds then [] else last_steps w path))"
    using run
  proof (cases rule: CreateBackend_cases)
    case (files_scan_failed msg)
    then show ?thesis by (simp add: first_steps_def)
  next
    case (subdirs_scan_failed msg)
    then show ?thesis by (simp add: first_steps_def)
  next
    case (out_of_range fs ds localized)
    from scans_Success(1)[OF out_of_range(1)] scans_Success(2)[OF out_of_range(2)]
    have ok: "scan_files_status w path = Success" "scan_subdirs_status w path = Success"
      and eq: "fs = ?fs" "ds = ?ds" by simp_all
    from out_of_range(3) sub have "first_error ?loc = None" "length ?fs < length ?ds"
      "statuses_of localized = steps_run ?loc"
      unfolding eq by (auto split: option.splits if_splits)
    then show ?thesis
      unfolding out_of_range(4,5) eq fst_steps[OF ok] by simp
  next
    case (localize_failed fs ds s localized)
    from scans_Success(1)[OF localize_failed(1)] scans_Success(2)[OF localize_failed(2)]
    have ok: "scan_files_status w path = Success" "scan_subdirs_status w path = Success"
      and eq: "fs = ?fs" "ds = ?ds" by simp_all
    from localize_failed(3) sub have "first_error ?loc = Some s"
      "statuses_of localized = steps_run ?loc"
      unfolding eq by (auto split: option.splits if_splits)
    then show ?thesis
      unfolding localize_failed(4,5) eq fst_steps[OF ok] by (simp add: steps_run_append)
  next
    case (read_failed fs ds m1 localized s loaded)
    from scans_Success(1)[OF read_failed(1)] scans_Success(2)[OF read_failed(2)]
    have ok: "scan_files_status w path = Success" "scan_subdirs_status w path = Success"
      and eq: "fs = ?fs" "ds = ?ds" by simp_all
    from read_failed(3) sub have 1: "first_error ?loc = None" "\<not> length ?fs < length ?ds"
      "statuses_of localized = steps_run ?loc" "m1 = ?m1"
      unfolding eq by (auto split: option.splits if_splits)
    from read_failed(4) fil have 2: "first_error (read_steps w path ?fs) = Some s"
      "statuses_of loaded = steps_run (read_steps w path ?fs)"
      unfolding eq 1(4) by (auto split: option.splits)
    from 1(1) have run1: "steps_run ?loc = ?loc"
      using steps_run_append[of ?loc "[]"] by simp
    from 1 2 run1 show ?thesis
      unfolding read_failed(5,6) eq fst_steps[OF ok] last_steps_def
      by (simp add: steps_run_append first_error_append)
  next
    case (resolved fs ds m1 localized m2 loaded built)
    from scans_Success(1)[OF resolved(1)] scans_Success(2)[OF resolved(2)]
    have ok: "scan_files_status w path = Success" "scan_subdirs_status w path = Success"
      and eq: "fs = ?fs" "ds = ?ds" by simp_all
    from resolved(3) sub have 1: "first_error ?loc = None" "\<not> length ?fs < length ?ds"
      "statuses_of localized = steps_run ?loc" "m1 = ?m1"
      unfolding eq by (auto split: option.splits if_splits)
    from resolved(4) fil have 2: "first_error (read_steps w path ?fs) = None"
      "statuses_of loaded = steps_run (read_steps w path ?fs)" "m2 = ?m2"
      unfolding eq 1(4) by (auto split: option.splits)
    from resolved(5) construct_backend_closed[of w path mc cc ?m2]
    have 3: "out = (case first_error [init_status w path, contexts_status w ?m2] of
            Some e \<Rightarrow> Returns e None
          | None \<Rightarrow> Returns Success
              (Some \<lparr>min_compute_capability_ = cc,
                     initialized = Some (path, mc, kOnnxRuntimeOnnxPlatform w),
                     contexts = Some ?m2\<rparr>))"
      "statuses_of built = steps_run [init_status w path, contexts_status w ?m2]"
      unfolding 2(3) by simp_all
    from 1(1) have run1: "steps_run ?loc = ?loc"
      using steps_run_append[of ?loc "[]"] by simp
    from 2(1) have run2: "steps_run (read_steps w path ?fs) = read_steps w path ?fs"
      using steps_run_append[of "read_steps w path ?fs" "[]"] by simp
    have fe: "first_error (last_steps w path)
                = first_error [init_status w path, contexts_status w ?m2]"
      unfolding last_steps_def first_error_append 2(1) by simp
    have sr: "statuses_of tr = steps_run (first_steps w path @ last_steps w path)"
      unfolding resolved(6) eq fst_steps[OF ok] last_steps_def
      using 1 2 3(2) run1 run2 by (simp add: steps_run_append first_error_append)
    from 1(1,2) sr show ?thesis
      unfolding 3(1) fe fst_steps(1)[OF ok] by simp
  qed
  with run show ?thesis by simp
qed

subsection \<open>Runs on example directories\<close>

lemma count_list_distinct: "distinct xs \<Longrightarrow> x \<in> set xs \<Longrightarrow> count_list xs x = 1"
  by (induction xs) (auto simp: count_list_0_iff)

lemma model_bin_run:
  "CreateBackend (healthy_world [(''model.bin'', False)] [(''/models/m/model.bin'', ten_bytes)])
      ''/models/m'' () (0 :: nat) =
     (Returns Success
        (Some \<lparr>min_compute_capability_ = 0,
               initialized = Some (''/models/m'', (), ''onnxruntime_onnx''),
               contexts = Some [(''model.bin'', True, ten_bytes)]\<rparr>),
      [CallGetDirectoryFiles ''/models/m'' True Success,
       CallGetDirectorySubdirs ''/models/m'' Success,
       NewTemporaryDirectory 0,
       CallReadTextFile ''/models/m/model.bin'' Success,
       NewOnnxBackend,
       CallInit ''/models/m'' Success,
       CallCreateExecutionContexts [(''model.bin'', True, ten_bytes)] Success,
       DeleteTemporaryDirectory 0])"
  by (simp add: CreateBackend_def GetDirectoryFiles_def GetDirectorySubdirs_def
        healthy_world_def is_subdir_def is_regular_file_def is_hidden_def ReadTextFile_def
        construct_backend_def Init_def CreateExecutionContexts_def new_OnnxBackend_def
        emplace_def Let_def)


lemma two_subdirs_run:
  "CreateBackend
      (healthy_world [(''model.onnx'', False), (''tokenizer'', True), (''weights'', True)] [])
      ''/models/m'' () (0 :: nat) =
     (UndefinedBehaviour,
      [CallGetDirectoryFiles ''/models/m'' True Success,
       CallGetDirectorySubdirs ''/models/m'' Success,
       NewTemporaryDirectory 0,
       CallLocalizeFileFolder ''/models/m/tokenizer'' 0 Success])"
  by (simp add: CreateBackend_def GetDirectoryFiles_def GetDirectorySubdirs_def
        healthy_world_def is_subdir_def is_regular_file_def is_hidden_def
        emplace_def Let_def LocalizeFileFolder_def make_TemporaryDirectory_def)

lemma file_and_subdir_run:
  "CreateBackend (healthy_world [(''model.onnx'', False), (''weights'', True)] [])
      ''/models/m'' () (0 :: nat) =
     (Returns Success
        (Some \<lparr>min_compute_capability_ = 0,
               initialized = Some (''/models/m'', (), ''onnxruntime_onnx''),
               contexts = Some [(''weights'', False, ''/tmp/store''), (''model.onnx'', True, [])]\<rparr>),
      [CallGetDirectoryFiles ''/models/m'' True Success,
       CallGetDirectorySubdirs ''/models/m'' Success,
       NewTemporaryDirectory 0,
       CallLocalizeFileFolder ''/models/m/weights'' 0 Success,
       CallReadTextFile ''/models/m/model.onnx'' Success,
       NewOnnxBackend,
       CallInit ''/models/m'' Success,
       CallCreateExecutionContexts
         [(''weights'', False, ''/tmp/store''), (''model.onnx'', True, [])] Success,
       DeleteTemporaryDirectory 0])"
  by (simp add: CreateBackend_def GetDirectoryFiles_def GetDirectorySubdirs_def
        healthy_world_def is_subdir_def is_regular_file_def is_hidden_def ReadTextFile_def
        construct_backend_def Init_def CreateExecutionContexts_def new_OnnxBackend_def
        emplace_def Let_def LocalizeFileFolder_def make_TemporaryDirectory_def)

lemma unreadable_file_run:
  "CreateBackend
      (healthy_world [(''model.onnx'', False), (''weights'', True)] []
         \<lparr>read_status := (\<lambda>p. Failure ''unreadable'')\<rparr>)
      ''/models/m'' () (0 :: nat) =
     (Returns (Failure ''unreadable'') None,
      [CallGetDirectoryFiles ''/models/m'' True Success,
       CallGetDirectorySubdirs ''/models/m'' Success,
       NewTemporaryDirectory 0,
       CallLocalizeFileFolder ''/models/m/weights'' 0 Success,
       CallReadTextFile ''/models/m/model.onnx'' (Failure ''unreadable''),
       DeleteTemporaryDirectory 0])"
  by (simp add: CreateBackend_def GetDirectoryFiles_def GetDirectorySubdirs_def
        healthy_world_def is_subdir_def is_regular_file_def is_hidden_def ReadTextFile_def
        emplace_def Let_def LocalizeFileFolder_def make_TemporaryDirectory_def)

section \<open>The claims about Create\<close>

text \<open>
  C2 (as amended). \<open>Create\<close> makes no test of the configuration's runtime shape and has
  no error for it: for every configuration, compatible or not, the only collaborator
  call is one \<open>OnnxLoader::Init()\<close>, the status returned is the one \<open>Init()\<close> returned,
  and the output parameter receives an owned factory holding the configuration exactly
  when that status is \<open>Success\<close>.
\<close>

theorem Create_checks_no_shape:
  "fst (Create w backend_config) = loader_init_status w
   \<and> filter (\<lambda>e. call_status e \<noteq> None) (snd (snd (Create w backend_config)))
       = [CallOnnxLoaderInit (loader_init_status w)]
   \<and> fst (snd (Create w backend_config))
       = (if loader_init_status w = Success then Some \<lparr>backend_config_ = backend_config\<rparr>
          else None)"
  by (cases "loader_init_status w")
     (simp_all add: Create_def destroy_OnnxBackendFactory_def static_pointer_cast_def)

text \<open>
  C2 as stated fails: a configuration of another backend's shape is accepted, \<open>Init()\<close>
  is invoked and \<open>Success\<close> is returned with a factory.
\<close>

theorem Create_incompatible_counterexample:
  "\<not> compatible (OtherBackendConfig () :: (unit, unit) BackendConfig)
   \<and> Create (healthy_world [] []) (OtherBackendConfig () :: (unit, unit) BackendConfig) =
       (Success, Some \<lparr>backend_config_ = OtherBackendConfig ()\<rparr>,
        [NewOnnxBackendFactory, CallOnnxLoaderInit Success])"
  by (simp add: Create_def compatible_def healthy_world_def static_pointer_cast_def)

text \<open>
  C10. When \<open>OnnxLoader::Init()\<close> fails, \<open>Create\<close> returns that failure, leaves the output
  parameter unassigned, and destroys the local factory, whose destructor calls
  \<open>OnnxLoader::Stop()\<close>; no successful \<open>Init()\<close> stands before that \<open>Stop()\<close>.
\<close>

theorem Create_Init_failure_stops_loader:
  "loader_init_status w = Failure msg \<Longrightarrow>
     Create w backend_config =
       (Failure msg, None,
        [NewOnnxBackendFactory, CallOnnxLoaderInit (Failure msg),
         DeleteOnnxBackendFactory, CallOnnxLoaderStop])"
  by (simp add: Create_def destroy_OnnxBackendFactory_def)

theorem Create_Init_failure_stops_loader_witness:
  "loader_init_status (healthy_world [] [] \<lparr>loader_init_status := Failure ''no runtime''\<rparr>)
     = Failure ''no runtime''
   \<and> Create (healthy_world [] [] \<lparr>loader_init_status := Failure ''no runtime''\<rparr>)
        (Config () :: (unit, unit) BackendConfig) =
       (Failure ''no runtime'', None,
        [NewOnnxBackendFactory, CallOnnxLoaderInit (Failure ''no runtime''),
         DeleteOnnxBackendFactory, CallOnnxLoaderStop])"
  using Create_Init_failure_stops_loader
    [of "healthy_world [] [] \<lparr>loader_init_status := Failure ''no runtime''\<rparr>" "''no runtime''"
        "Config () :: (unit, unit) BackendConfig"]
  by (simp add: healthy_world_def)

section \<open>The claims about CreateBackend\<close>

text \<open>
  C1. The claim asks that the store used for the \<open>i\<close>-th subdirectory be an element of
  the stores the call allocated, whatever the numbers of files and subdirectories.
  The code sizes \<open>local_onnx\<close> by the number of files and indexes it by the position of
  the subdirectory. For a model directory that holds the one subdirectory \<open>weights\<close>
  and no file, \<open>local_onnx\<close> is empty and \<open>local_onnx[0]\<close> is read out of range: the call
  has no defined result, and no store was allocated.
\<close>

theorem CreateBackend_subdir_without_file:
  "CreateBackend (healthy_world [(''weights'', True)] []) ''/models/m'' () (0 :: nat) =
     (UndefinedBehaviour,
      [CallGetDirectoryFiles ''/models/m'' True Success,
       CallGetDirectorySubdirs ''/models/m'' Success])"
  by (simp add: CreateBackend_def GetDirectoryFiles_def GetDirectorySubdirs_def
        healthy_world_def is_subdir_def is_regular_file_def is_hidden_def)

text \<open>
  C3. Whenever \<open>CreateBackend\<close> hands an artifact map to the backend, every non-hidden
  regular file of the model directory is a key of it, and its entry carries the flag
  \<open>true\<close> (inline content) with exactly the bytes stored on disk at the joined path:
  what the read returned is stored unchanged.
\<close>

theorem CreateBackend_inline_bytes:
  assumes "CreateBackend w path mc cc = (out, tr)"
    and "m \<in> set (maps_handed_over tr)"
    and "is_regular_file w path n" and "\<not> is_hidden w n"
  shows "map_of m n = Some (True, file_bytes w (JoinPath w [path, n]))"
proof -
  note hm = handed_over_map[OF assms(1,2)]
  from assms(3,4) hm(2) obtain v where v: "(n, v) \<in> set m" by force
  from hm(3)[OF v] assms(3) have "v = (True, file_bytes w (JoinPath w [path, n]))"
    by (auto dest: file_is_no_subdir)
  with v hm(1) show ?thesis by simp
qed

text \<open>
  The scenario of the claim: a directory holding only \<open>model.bin\<close>, ten bytes with a
  null byte among them, yields exactly the map with that one inline entry.
\<close>

theorem CreateBackend_inline_bytes_witness:
  "maps_handed_over
     (snd (CreateBackend
             (healthy_world [(''model.bin'', False)] [(''/models/m/model.bin'', ten_bytes)])
             ''/models/m'' () (0 :: nat)))
     = [[(''model.bin'', True, ten_bytes)]]
   \<and> length ten_bytes = 10 \<and> CHR 0x00 \<in> set ten_bytes
   \<and> map_of [(''model.bin'', True, ten_bytes)] ''model.bin'' = Some (True, ten_bytes)"
proof -
  let ?w = "healthy_world [(''model.bin'', False)] [(''/models/m/model.bin'', ten_bytes)]"
  let ?run = "CreateBackend ?w ''/models/m'' () (0 :: nat)"
  have handed: "maps_handed_over (snd ?run) = [[(''model.bin'', True, ten_bytes)]]"
    by (simp add: model_bin_run)
  have regular: "is_regular_file ?w ''/models/m'' ''model.bin''"
    by (simp add: is_regular_file_def healthy_world_def)
  have shown: "\<not> is_hidden ?w ''model.bin''"
    by (simp add: is_hidden_def healthy_world_def)
  have "map_of [(''model.bin'', True, ten_bytes)] ''model.bin''
          = Some (True, file_bytes ?w (JoinPath ?w [''/models/m'', ''model.bin'']))"
    using handed
    by (intro CreateBackend_inline_bytes[of ?w "''/models/m''" "()" "0 :: nat"
                "fst ?run" "snd ?run", OF _ _ regular shown]) simp_all
  then have "map_of [(''model.bin'', True, ten_bytes)] ''model.bin'' = Some (True, ten_bytes)"
    by (simp add: healthy_world_def)
  with handed show ?thesis by (simp add: ten_bytes_def)
qed

text \<open>
  C7. In every trace of \<open>CreateBackend\<close>, each event that is not the release of a store
  (every localization, every read, the construction of the backend, \<open>Init\<close> and
  \<open>CreateExecutionContexts\<close> among them) comes before each release of a store: no
  store is released until \<open>CreateExecutionContexts\<close> has returned. When the call
  returns, on success or with an error, the stores released are exactly the stores
  allocated, each once.
\<close>

theorem CreateBackend_stores_outlive_construction:
  assumes "CreateBackend w path mc cc = (out, tr)"
  shows "(\<forall>i j. i < length tr \<and> j < length tr \<and> is_release (tr ! i) \<and> \<not> is_release (tr ! j)
            \<longrightarrow> j < i)
       \<and> (out \<noteq> UndefinedBehaviour \<longrightarrow> stores_released tr = stores_allocated tr)
       \<and> distinct (stores_allocated tr)"
proof -
  have split: "\<exists>work n. tr = work @ map DeleteTemporaryDirectory [0..<n]
                 \<and> (\<forall>e \<in> set work. \<not> is_release e)
                 \<and> distinct (stores_allocated work)
                 \<and> (out \<noteq> UndefinedBehaviour \<longrightarrow> stores_allocated work = [0..<n])"
    using assms
  proof (cases rule: CreateBackend_cases)
    case (files_scan_failed msg)
    then show ?thesis
      by (intro exI[of _ tr] exI[of _ 0]) simp
  next
    case (subdirs_scan_failed msg)
    then show ?thesis
      by (intro exI[of _ tr] exI[of _ 0]) simp
  next
    case (out_of_range fs ds localized)
    from out_of_range(3) have l: "localized = snd (subdirs_loop w path
        (map (make_TemporaryDirectory w) [0..<length fs]) ds 0 [])" by simp
    show ?thesis
      unfolding out_of_range(4,5) l using no_release_in_loops(1)
      by (intro exI[of _ "_ @ _ @ _"] exI[of _ 0]) auto
  next
    case (localize_failed fs ds s localized)
    from localize_failed(3) have l: "localized = snd (subdirs_loop w path
        (map (make_TemporaryDirectory w) [0..<length fs]) ds 0 [])" by simp
    show ?thesis
      unfolding localize_failed(5) l using no_release_in_loops(1)
      by (intro exI[of _ "[CallGetDirectoryFiles path True Success,
              CallGetDirectorySubdirs path Success]
            @ map NewTemporaryDirectory [0..<length fs] @ snd (subdirs_loop w path
        (map (make_TemporaryDirectory w) [0..<length fs]) ds 0 [])"] exI[of _ "length fs"]) auto
  next
    case (read_failed fs ds m1 localized s loaded)
    from read_failed(3) have l: "localized = snd (subdirs_loop w path
        (map (make_TemporaryDirectory w) [0..<length fs]) ds 0 [])" by simp
    from read_failed(4) have r: "loaded = snd (files_loop w path fs m1)" by simp
    show ?thesis
      unfolding read_failed(6) l r using no_release_in_loops
      by (intro exI[of _ "[CallGetDirectoryFiles path True Success,
              CallGetDirectorySubdirs path Success]
            @ map NewTemporaryDirectory [0..<length fs] @ snd (subdirs_loop w path
        (map (make_TemporaryDirectory w) [0..<length fs]) ds 0 [])
            @ snd (files_loop w path fs m1)"] exI[of _ "length fs"]) auto
  next
    case (resolved fs ds m1 localized m2 loaded built)
    from resolved(3) have l: "localized = snd (subdirs_loop w path
        (map (make_TemporaryDirectory w) [0..<length fs]) ds 0 [])" by simp
    from resolved(4) have r: "loaded = snd (files_loop w path fs m1)" by simp
    note b = stores_of_construct_backend[OF resolved(5)]
    show ?thesis
      unfolding resolved(6) l r using no_release_in_loops b
      by (intro exI[of _ "[CallGetDirectoryFiles path True Success,
              CallGetDirectorySubdirs path Success]
            @ map NewTemporaryDirectory [0..<length fs] @ snd (subdirs_loop w path
        (map (make_TemporaryDirectory w) [0..<length fs]) ds 0 [])
            @ snd (files_loop w path fs m1) @ built"] exI[of _ "length fs"]) auto
  qed
  then obtain work n where tr: "tr = work @ map DeleteTemporaryDirectory [0..<n]"
    and work: "\<forall>e \<in> set work. \<not> is_release e"
    and dist: "distinct (stores_allocated work)"
    and all: "out \<noteq> UndefinedBehaviour \<longrightarrow> stores_allocated work = [0..<n]"
    by blast
  have rel: "\<forall>e \<in> set (map DeleteTemporaryDirectory [0..<n]). \<not> \<not> is_release e" by simp
  have "j < i" if "i < length tr" "j < length tr" "is_release (tr ! i)" "\<not> is_release (tr ! j)"
    for i j
    using ordered_segments[where P = "\<lambda>e. \<not> is_release e" and Q = is_release, OF work rel, of j i]
      that unfolding tr by simp
  moreover have "stores_released tr = stores_allocated tr" if "out \<noteq> UndefinedBehaviour"
  proof -
    have "stores_released work = []"
      unfolding stores_released_def using work
      by (intro concat_map_empty) (auto split: event.splits)
    with that all show ?thesis unfolding tr by simp
  qed
  moreover have "distinct (stores_allocated tr)" unfolding tr using dist by simp
  ultimately show ?thesis by blast
qed

theorem CreateBackend_stores_outlive_construction_witness:
  "snd (CreateBackend (healthy_world [(''model.onnx'', False), (''weights'', True)] [])
          ''/models/m'' () (0 :: nat)) ! 7
     = CallCreateExecutionContexts
         [(''weights'', False, ''/tmp/store''), (''model.onnx'', True, [])] Success
   \<and> snd (CreateBackend (healthy_world [(''model.onnx'', False), (''weights'', True)] [])
          ''/models/m'' () (0 :: nat)) ! 8
     = DeleteTemporaryDirectory 0
   \<and> (7 :: nat) < 8
   \<and> stores_released
        (snd (CreateBackend (healthy_world [(''model.onnx'', False), (''weights'', True)] [])
                ''/models/m'' () (0 :: nat)))
     = stores_allocated
        (snd (CreateBackend (healthy_world [(''model.onnx'', False), (''weights'', True)] [])
                ''/models/m'' () (0 :: nat)))
   \<and> stores_allocated
        (snd (CreateBackend (healthy_world [(''model.onnx'', False), (''weights'', True)] [])
                ''/models/m'' () (0 :: nat))) = [0]"
proof -
  let ?w = "healthy_world [(''model.onnx'', False), (''weights'', True)] []"
  let ?run = "CreateBackend ?w ''/models/m'' () (0 :: nat)"
  have ev: "snd ?run ! 7 = CallCreateExecutionContexts
         [(''weights'', False, ''/tmp/store''), (''model.onnx'', True, [])] Success"
    "snd ?run ! 8 = DeleteTemporaryDirectory 0" "length (snd ?run) = 9"
    "fst ?run \<noteq> UndefinedBehaviour" "stores_allocated (snd ?run) = [0]"
    by (simp_all add: file_and_subdir_run)
  note lifetimes = CreateBackend_stores_outlive_construction
      [of ?w "''/models/m''" "()" "0 :: nat" "fst ?run" "snd ?run", OF prod.collapse[symmetric]]
  from lifetimes have "8 < length (snd ?run) \<and> 7 < length (snd ?run) \<and> is_release (snd ?run ! 8)
        \<and> \<not> is_release (snd ?run ! 7) \<longrightarrow> (7 :: nat) < 8"
    by blast
  moreover from lifetimes ev(4) have "stores_released (snd ?run) = stores_allocated (snd ?run)"
    by blast
  ultimately show ?thesis using ev by simp
qed

text \<open>
  C8. Once both scans have succeeded, \<open>CreateBackend\<close> allocates one store per
  non-hidden regular file of the model directory (as many stores as there are such
  files, whatever the number of subdirectories), every allocation comes before every
  localization, and in a directory without subdirectories no store is ever used.
\<close>

theorem CreateBackend_allocates_per_file:
  assumes "CreateBackend w path mc cc = (out, tr)"
    and "scan_files_status w path = Success" and "scan_subdirs_status w path = Success"
  shows "stores_allocated tr = [0..<card {n. is_regular_file w path n \<and> \<not> is_hidden w n}]
       \<and> (\<forall>i j. i < length tr \<and> j < length tr \<and> (\<exists>s. tr ! i = NewTemporaryDirectory s)
              \<and> (\<exists>p s st. tr ! j = CallLocalizeFileFolder p s st) \<longrightarrow> i < j)
       \<and> ({n. is_subdir w path n} = {} \<longrightarrow> stores_used tr = [])"
proof -
  let ?P = "\<lambda>e. \<exists>s. e = NewTemporaryDirectory s"
  let ?Q = "\<lambda>e. \<exists>p s st. e = CallLocalizeFileFolder p s st"
  have split: "\<exists>fs ds rest.
      GetDirectoryFiles w path True = (Success, fs) \<and> GetDirectorySubdirs w path = (Success, ds)
      \<and> tr = ([CallGetDirectoryFiles path True Success, CallGetDirectorySubdirs path Success]
               @ map NewTemporaryDirectory [0..<length fs]) @ rest
      \<and> (\<forall>e \<in> set rest. \<not> ?P e)
      \<and> (ds = [] \<longrightarrow> stores_used rest = [])"
    using assms(1)
  proof (cases rule: CreateBackend_cases)
    case (files_scan_failed msg)
    with assms(2) show ?thesis by simp
  next
    case (subdirs_scan_failed msg)
    with assms(3) show ?thesis by simp
  next
    case (out_of_range fs ds localized)
    from out_of_range(3) have l: "localized = snd (subdirs_loop w path
        (map (make_TemporaryDirectory w) [0..<length fs]) ds 0 [])" by simp
    from out_of_range(3) have "ds \<noteq> []" by auto
    then show ?thesis
      using out_of_range(1,2) unfolding out_of_range(5) l
      by (auto dest: subdirs_loop_events)
  next
    case (localize_failed fs ds s localized)
    from localize_failed(3) have l: "localized = snd (subdirs_loop w path
        (map (make_TemporaryDirectory w) [0..<length fs]) ds 0 [])" by simp
    from localize_failed(3) have "ds \<noteq> []" by auto
    then show ?thesis
      using localize_failed(1,2) unfolding localize_failed(5) l
      by (auto dest: subdirs_loop_events)
  next
    case (read_failed fs ds m1 localized s loaded)
    from read_failed(3) have l: "localized = snd (subdirs_loop w path
        (map (make_TemporaryDirectory w) [0..<length fs]) ds 0 [])" by simp
    from read_failed(4) have r: "loaded = snd (files_loop w path fs m1)" by simp
    show ?thesis
      using read_failed(1,2) unfolding read_failed(6) l r
      by (auto dest: subdirs_loop_events files_loop_events)
  next
    case (resolved fs ds m1 localized m2 loaded built)
    from resolved(3) have l: "localized = snd (subdirs_loop w path
        (map (make_TemporaryDirectory w) [0..<length fs]) ds 0 [])" by simp
    from resolved(4) have r: "loaded = snd (files_loop w path fs m1)" by simp
    note b = stores_of_construct_backend[OF resolved(5)]
    show ?thesis
      using resolved(1,2) b unfolding resolved(6) l r
      by (auto dest: subdirs_loop_events files_loop_events)
  qed
  then obtain fs ds rest where
    fs: "GetDirectoryFiles w path True = (Success, fs)" and
    ds: "GetDirectorySubdirs w path = (Success, ds)" and
    tr: "tr = ([CallGetDirectoryFiles path True Success, CallGetDirectorySubdirs path Success]
               @ map NewTemporaryDirectory [0..<length fs]) @ rest" and
    rest: "\<forall>e \<in> set rest. \<not> ?P e" and
    unused: "ds = [] \<longrightarrow> stores_used rest = []"
    by blast
  note sfs = GetDirectoryFiles_Success[OF fs] and sds = GetDirectorySubdirs_Success[OF ds]
  have "card {n. is_regular_file w path n \<and> \<not> is_hidden w n} = length fs"
    using sfs distinct_card[of fs] by simp
  moreover have "stores_allocated rest = []"
    unfolding stores_allocated_def using rest
    by (intro concat_map_empty) (auto split: event.splits)
  ultimately have count:
    "stores_allocated tr = [0..<card {n. is_regular_file w path n \<and> \<not> is_hidden w n}]"
    unfolding tr by simp
  have front: "\<forall>e \<in> set ([CallGetDirectoryFiles path True Success,
        CallGetDirectorySubdirs path Success] @ map NewTemporaryDirectory [0..<length fs]). \<not> ?Q e"
    by auto
  have order: "i < j" if "i < length tr" "j < length tr" "?P (tr ! i)" "?Q (tr ! j)" for i j
    using ordered_segments[where P = ?P and Q = ?Q, OF front rest, of i j] that
    unfolding tr by blast
  have "stores_used tr = []" if "{n. is_subdir w path n} = {}"
  proof -
    from that sds(1) have "ds = []" by simp
    with unused show ?thesis unfolding tr by simp
  qed
  with count order show ?thesis by blast
qed

theorem CreateBackend_allocates_per_file_witness:
  "scan_files_status
     (healthy_world [(''model.bin'', False)] [(''/models/m/model.bin'', ten_bytes)]) ''/models/m''
     = Success
   \<and> scan_subdirs_status
     (healthy_world [(''model.bin'', False)] [(''/models/m/model.bin'', ten_bytes)]) ''/models/m''
     = Success
   \<and> {n. is_subdir
          (healthy_world [(''model.bin'', False)] [(''/models/m/model.bin'', ten_bytes)])
          ''/models/m'' n} = {}
   \<and> stores_allocated
        (snd (CreateBackend
                (healthy_world [(''model.bin'', False)] [(''/models/m/model.bin'', ten_bytes)])
                ''/models/m'' () (0 :: nat)))
       = [0..<card {n. is_regular_file
                         (healthy_world [(''model.bin'', False)]
                            [(''/models/m/model.bin'', ten_bytes)]) ''/models/m'' n
                       \<and> \<not> is_hidden
                         (healthy_world [(''model.bin'', False)]
                            [(''/models/m/model.bin'', ten_bytes)]) n}]
   \<and> stores_allocated
        (snd (CreateBackend
                (healthy_world [(''model.bin'', False)] [(''/models/m/model.bin'', ten_bytes)])
                ''/models/m'' () (0 :: nat))) = [0]
   \<and> stores_used
        (snd (CreateBackend
                (healthy_world [(''model.bin'', False)] [(''/models/m/model.bin'', ten_bytes)])
                ''/models/m'' () (0 :: nat))) = []"
proof -
  let ?w = "healthy_world [(''model.bin'', False)] [(''/models/m/model.bin'', ten_bytes)]"
  let ?run = "CreateBackend ?w ''/models/m'' () (0 :: nat)"
  have scans: "scan_files_status ?w ''/models/m'' = Success"
    "scan_subdirs_status ?w ''/models/m'' = Success"
    by (simp_all add: healthy_world_def)
  have none: "{n. is_subdir ?w ''/models/m'' n} = {}"
    by (simp add: is_subdir_def healthy_world_def)
  have one: "stores_allocated (snd ?run) = [0]"
    by (simp add: model_bin_run)
  from CreateBackend_allocates_per_file
    [of ?w "''/models/m''" "()" "0 :: nat" "fst ?run" "snd ?run",
     OF prod.collapse[symmetric] scans] none
  have "stores_allocated (snd ?run)
          = [0..<card {n. is_regular_file ?w ''/models/m'' n \<and> \<not> is_hidden ?w n}]
        \<and> stores_used (snd ?run) = []"
    by blast
  with scans none one show ?thesis by blast
qed

text \<open>
  C9. For a model directory with no non-hidden regular file and no subdirectory, whose
  scans succeed, the resolution phase reports no error and allocates nothing: the
  backend is constructed, \<open>Init\<close> is called, and after a successful \<open>Init\<close>
  \<open>CreateExecutionContexts\<close> is called with the empty map; the status returned is the
  one of \<open>Init\<close> or of \<open>CreateExecutionContexts\<close>.
\<close>

theorem CreateBackend_empty_directory:
  assumes "scan_files_status w path = Success" and "scan_subdirs_status w path = Success"
    and "{n. is_regular_file w path n \<and> \<not> is_hidden w n} = {}"
    and "{n. is_subdir w path n} = {}"
  shows "CreateBackend w path mc cc =
     (if init_status w path \<noteq> Success then
        (Returns (init_status w path) None,
         [CallGetDirectoryFiles path True Success, CallGetDirectorySubdirs path Success,
          NewOnnxBackend, CallInit path (init_status w path), DeleteOnnxBackend])
      else if contexts_status w [] \<noteq> Success then
        (Returns (contexts_status w []) None,
         [CallGetDirectoryFiles path True Success, CallGetDirectorySubdirs path Success,
          NewOnnxBackend, CallInit path Success,
          CallCreateExecutionContexts [] (contexts_status w []), DeleteOnnxBackend])
      else
        (Returns Success
           (Some \<lparr>min_compute_capability_ = cc,
                  initialized = Some (path, mc, kOnnxRuntimeOnnxPlatform w),
                  contexts = Some []\<rparr>),
         [CallGetDirectoryFiles path True Success, CallGetDirectorySubdirs path Success,
          NewOnnxBackend, CallInit path Success, CallCreateExecutionContexts [] Success]))"
proof -
  obtain fs where fs: "GetDirectoryFiles w path True = (Success, fs)"
    using assms(1) by (simp add: GetDirectoryFiles_def)
  obtain ds where ds: "GetDirectorySubdirs w path = (Success, ds)"
    using assms(2) by (simp add: GetDirectorySubdirs_def)
  from GetDirectoryFiles_Success(1)[OF fs] assms(3) have "fs = []" by simp
  moreover from GetDirectorySubdirs_Success(1)[OF ds] assms(4) have "ds = []" by simp
  ultimately have scans: "GetDirectoryFiles w path True = (Success, [])"
    "GetDirectorySubdirs w path = (Success, [])"
    using fs ds by simp_all
  show ?thesis
  proof (cases "init_status w path")
    case (Failure msg)
    then show ?thesis
      by (simp add: CreateBackend_def scans construct_backend_def Init_def)
  next
    case Success
    show ?thesis
    proof (cases "contexts_status w []")
      case (Failure msg)
      with Success show ?thesis
        by (simp add: CreateBackend_def scans construct_backend_def Init_def
              CreateExecutionContexts_def)
    next
      case ok: Success
      with Success show ?thesis
        by (simp add: CreateBackend_def scans construct_backend_def Init_def
              CreateExecutionContexts_def new_OnnxBackend_def)
    qed
  qed
qed

theorem CreateBackend_empty_directory_witness:
  "scan_files_status (healthy_world [(''.DS_Store'', False)] []) ''/models/m'' = Success
   \<and> scan_subdirs_status (healthy_world [(''.DS_Store'', False)] []) ''/models/m'' = Success
   \<and> {n. is_regular_file (healthy_world [(''.DS_Store'', False)] []) ''/models/m'' n
         \<and> \<not> is_hidden (healthy_world [(''.DS_Store'', False)] []) n} = {}
   \<and> {n. is_subdir (healthy_world [(''.DS_Store'', False)] []) ''/models/m'' n} = {}
   \<and> CreateBackend (healthy_world [(''.DS_Store'', False)] []) ''/models/m'' () (0 :: nat) =
       (Returns Success
          (Some \<lparr>min_compute_capability_ = 0,
                 initialized = Some (''/models/m'', (), ''onnxruntime_onnx''),
                 contexts = Some []\<rparr>),
        [CallGetDirectoryFiles ''/models/m'' True Success,
         CallGetDirectorySubdirs ''/models/m'' Success,
         NewOnnxBackend, CallInit ''/models/m'' Success,
         CallCreateExecutionContexts [] Success])"
proof -
  let ?w = "healthy_world [(''.DS_Store'', False)] []"
  have scans: "scan_files_status ?w ''/models/m'' = Success"
    "scan_subdirs_status ?w ''/models/m'' = Success"
    by (simp_all add: healthy_world_def)
  have nofile: "{n. is_regular_file ?w ''/models/m'' n \<and> \<not> is_hidden ?w n} = {}"
    by (auto simp: is_regular_file_def is_hidden_def healthy_world_def split: if_splits)
  have nodir: "{n. is_subdir ?w ''/models/m'' n} = {}"
    by (simp add: is_subdir_def healthy_world_def)
  have "CreateBackend ?w ''/models/m'' () (0 :: nat) =
       (Returns Success
          (Some \<lparr>min_compute_capability_ = 0,
                 initialized = Some (''/models/m'', (), ''onnxruntime_onnx''),
                 contexts = Some []\<rparr>),
        [CallGetDirectoryFiles ''/models/m'' True Success,
         CallGetDirectorySubdirs ''/models/m'' Success,
         NewOnnxBackend, CallInit ''/models/m'' Success,
         CallCreateExecutionContexts [] Success])"
    unfolding CreateBackend_empty_directory[OF scans nofile nodir]
    by (simp add: healthy_world_def)
  with scans nofile nodir show ?thesis by blast
qed



text \<open>
  C5. The claim promises the constructed backend whenever no step fails. In the model
  directory that holds the file \<open>model.onnx\<close> and the subdirectories \<open>tokenizer\<close> and
  \<open>weights\<close>, in a world where no collaborator call can fail, both scans and the
  localization of \<open>tokenizer\<close> succeed; then \<open>local_onnx[1]\<close> is read out of range for
  \<open>weights\<close>, since one file gave one store. No step has failed, and no backend and no
  status is returned.
\<close>

theorem CreateBackend_no_failure_no_backend:
  "(\<forall>p. scan_files_status
          (healthy_world [(''model.onnx'', False), (''tokenizer'', True), (''weights'', True)] [])
          p = Success)
   \<and> (\<forall>p. scan_subdirs_status
          (healthy_world [(''model.onnx'', False), (''tokenizer'', True), (''weights'', True)] [])
          p = Success)
   \<and> (\<forall>p s. localize_status
          (healthy_world [(''model.onnx'', False), (''tokenizer'', True), (''weights'', True)] [])
          p s = Success)
   \<and> (\<forall>p. read_status
          (healthy_world [(''model.onnx'', False), (''tokenizer'', True), (''weights'', True)] [])
          p = Success)
   \<and> (\<forall>p. init_status
          (healthy_world [(''model.onnx'', False), (''tokenizer'', True), (''weights'', True)] [])
          p = Success)
   \<and> (\<forall>m. contexts_status
          (healthy_world [(''model.onnx'', False), (''tokenizer'', True), (''weights'', True)] [])
          m = Success)
   \<and> CreateBackend
        (healthy_world [(''model.onnx'', False), (''tokenizer'', True), (''weights'', True)] [])
        ''/models/m'' () (0 :: nat) =
       (UndefinedBehaviour,
        [CallGetDirectoryFiles ''/models/m'' True Success,
         CallGetDirectorySubdirs ''/models/m'' Success,
         NewTemporaryDirectory 0,
         CallLocalizeFileFolder ''/models/m/tokenizer'' 0 Success])"
  by (simp add: two_subdirs_run) (simp add: healthy_world_def)

text \<open>
  C6. The claim asks that every scanned name be a key of the artifact map, never
  omitted. The model directory that holds only the subdirectory \<open>weights\<close> has that
  name scanned, not hidden; the call reads \<open>local_onnx[0]\<close> out of range before
  anything is put into the map, and no map is ever handed to the backend.
\<close>

theorem CreateBackend_subdir_never_keyed:
  "is_subdir (healthy_world [(''weights'', True)] []) ''/models/m'' ''weights''
   \<and> \<not> is_hidden (healthy_world [(''weights'', True)] []) ''weights''
   \<and> fst (CreateBackend (healthy_world [(''weights'', True)] []) ''/models/m'' () (0 :: nat))
       = UndefinedBehaviour
   \<and> maps_handed_over
        (snd (CreateBackend (healthy_world [(''weights'', True)] []) ''/models/m'' ()
                (0 :: nat))) = []"
  by (simp add: CreateBackend_def GetDirectoryFiles_def GetDirectorySubdirs_def
        healthy_world_def is_subdir_def is_regular_file_def is_hidden_def)

section \<open>Further properties of CreateBackend\<close>

text \<open>
  X1. The subdirectories are localized, in order, into the stores \<open>0, 1, 2, \<dots>\<close>, one
  store each and each among the stores the call allocated; and when the call returns
  \<open>Success\<close>, every scanned subdirectory has been localized into a store of its own.
\<close>

theorem CreateBackend_store_per_subdir:
  assumes "CreateBackend w path mc cc = (out, tr)"
  shows "(\<exists>k. stores_used tr = [0..<k] \<and> k \<le> length (stores_allocated tr))
       \<and> (\<forall>b. out = Returns Success b
              \<longrightarrow> stores_used tr = [0..<card {n. is_subdir w path n \<and> \<not> is_hidden w n}])"
  using assms
proof (cases rule: CreateBackend_cases)
  case (files_scan_failed msg)
  then show ?thesis by simp
next
  case (subdirs_scan_failed msg)
  then show ?thesis by simp
next
  case (out_of_range fs ds localized)
  let ?lo = "map (make_TemporaryDirectory w) [0..<length fs]"
  from out_of_range(3) have l: "localized = snd (subdirs_loop w path ?lo ds 0 [])" by simp
  from subdirs_loop_stores_used[of 0 ?lo ds w path "[]"]
  obtain k where k: "k \<le> length fs" "stores_used localized = map (\<lambda>j. store_id (?lo ! j)) [0..<k]"
    unfolding l by auto
  from k(2) store_ids_allocated[OF k(1), of w] have "stores_used localized = [0..<k]" by simp
  with k(1) show ?thesis
    unfolding out_of_range(4,5) l by (intro conjI exI[of _ k]) simp_all
next
  case (localize_failed fs ds s localized)
  let ?lo = "map (make_TemporaryDirectory w) [0..<length fs]"
  let ?before = "[CallGetDirectoryFiles path True Success, CallGetDirectorySubdirs path Success]
                 @ map NewTemporaryDirectory [0..<length fs]"
  from localize_failed(3) have l: "localized = snd (subdirs_loop w path ?lo ds 0 [])" by simp
  from subdirs_loop_stores_used[of 0 ?lo ds w path "[]"]
  obtain k where k: "k \<le> length fs" "stores_used localized = map (\<lambda>j. store_id (?lo ! j)) [0..<k]"
    unfolding l by auto
  from k(2) store_ids_allocated[OF k(1), of w] have u: "stores_used localized = [0..<k]" by simp
  from subdirs_loop_shape[of w path ?lo ds 0 "[]"] localize_failed(3)
  have shape: "run_shape (Return s) localized" by simp
  have ok: "filter failed ?before = []" by (simp add: failed_def)
  have tr: "tr = ?before @ localized @ map DeleteTemporaryDirectory [0..<length fs]"
    using localize_failed(5) by simp
  from failing_run(3)[OF shape ok] have ff: "s \<noteq> Success" .
  have "stores_used tr = [0..<k]" "length (stores_allocated tr) = length fs"
    unfolding localize_failed(5) using u by (simp_all add: l)
  with k(1) ff localize_failed(4) show ?thesis by auto
next
  case (read_failed fs ds m1 localized s loaded)
  let ?lo = "map (make_TemporaryDirectory w) [0..<length fs]"
  let ?before = "[CallGetDirectoryFiles path True Success, CallGetDirectorySubdirs path Success]
                 @ map NewTemporaryDirectory [0..<length fs] @ localized"
  from read_failed(3) have l: "localized = snd (subdirs_loop w path ?lo ds 0 [])" by simp
  from read_failed(4) have r: "loaded = snd (files_loop w path fs m1)" by simp
  from subdirs_loop_stores_used[of 0 ?lo ds w path "[]"]
  obtain k where k: "k \<le> length fs" "stores_used localized = map (\<lambda>j. store_id (?lo ! j)) [0..<k]"
    unfolding l by auto
  from k(2) store_ids_allocated[OF k(1), of w] have u: "stores_used localized = [0..<k]" by simp
  from subdirs_loop_shape[of w path ?lo ds 0 "[]"] read_failed(3)
  have "filter failed localized = []" by (simp add: run_shape_def)
  then have ok: "filter failed ?before = []" by (simp add: failed_def)
  from files_loop_shape[of w path fs m1] read_failed(4)
  have shape: "run_shape (Return s) loaded" by simp
  have tr: "tr = ?before @ loaded @ map DeleteTemporaryDirectory [0..<length fs]"
    using read_failed(6) by simp
  from failing_run(3)[OF shape ok] have ff: "s \<noteq> Success" .
  have "stores_used tr = [0..<k]" "length (stores_allocated tr) = length fs"
    unfolding read_failed(6) r using u by (simp_all add: l)
  with k(1) ff read_failed(5) show ?thesis by auto
next
  case (resolved fs ds m1 localized m2 loaded built)
  let ?lo = "map (make_TemporaryDirectory w) [0..<length fs]"
  from resolved(3) have l: "localized = snd (subdirs_loop w path ?lo ds 0 [])" by simp
  from resolved(4) have r: "loaded = snd (files_loop w path fs m1)" by simp
  from subdirs_loop_Next_range[of w path ?lo ds 0 "[]" m1] resolved(3)
  have fits: "length ds \<le> length fs" by auto
  from resolved(3) have "fst (subdirs_loop w path ?lo ds 0 []) = Next m1" by simp
  from subdirs_loop_stores_used_Next[OF this]
  have "stores_used localized = map (\<lambda>j. store_id (?lo ! j)) [0..<length ds]"
    unfolding l by simp
  with store_ids_allocated[OF fits, of w] have u: "stores_used localized = [0..<length ds]"
    by simp
  note b = stores_of_construct_backend[OF resolved(5)]
  from GetDirectorySubdirs_Success[OF resolved(2)] distinct_card[of ds]
  have card: "card {n. is_subdir w path n \<and> \<not> is_hidden w n} = length ds" by simp
  have "stores_used tr = [0..<length ds]" "length (stores_allocated tr) = length fs"
    unfolding resolved(6) r using u b by (simp_all add: l)
  with fits card show ?thesis by (intro conjI exI[of _ "length ds"]) simp_all
qed

theorem CreateBackend_store_per_subdir_witness:
  "fst (CreateBackend (healthy_world [(''model.onnx'', False), (''weights'', True)] [])
          ''/models/m'' () (0 :: nat))
     = Returns Success
         (Some \<lparr>min_compute_capability_ = 0,
                initialized = Some (''/models/m'', (), ''onnxruntime_onnx''),
                contexts = Some [(''weights'', False, ''/tmp/store''), (''model.onnx'', True, [])]\<rparr>)
   \<and> stores_used
     (snd (CreateBackend (healthy_world [(''model.onnx'', False), (''weights'', True)] [])
             ''/models/m'' () (0 :: nat)))
     = [0..<card {n. is_subdir (healthy_world [(''model.onnx'', False), (''weights'', True)] [])
                       ''/models/m'' n
                     \<and> \<not> is_hidden (healthy_world [(''model.onnx'', False), (''weights'', True)] [])
                           n}]
   \<and> stores_used
     (snd (CreateBackend (healthy_world [(''model.onnx'', False), (''weights'', True)] [])
             ''/models/m'' () (0 :: nat))) = [0]"
proof -
  let ?w = "healthy_world [(''model.onnx'', False), (''weights'', True)] []"
  let ?run = "CreateBackend ?w ''/models/m'' () (0 :: nat)"
  have ev: "fst ?run = Returns Success
         (Some \<lparr>min_compute_capability_ = 0,
                initialized = Some (''/models/m'', (), ''onnxruntime_onnx''),
                contexts = Some [(''weights'', False, ''/tmp/store''), (''model.onnx'', True, [])]\<rparr>)"
    "stores_used (snd ?run) = [0]"
    by (simp_all add: file_and_subdir_run)
  from CreateBackend_store_per_subdir
    [of ?w "''/models/m''" "()" "0 :: nat" "fst ?run" "snd ?run", OF prod.collapse[symmetric]]
    ev(1)
  have "stores_used (snd ?run)
          = [0..<card {n. is_subdir ?w ''/models/m'' n \<and> \<not> is_hidden ?w n}]"
    by simp
  with ev show ?thesis by simp
qed

text \<open>
  X2. Whenever \<open>CreateBackend\<close> hands an artifact map to the backend, every name the
  scans found occurs exactly once among its keys: a non-hidden regular file with an
  inline entry (flag \<open>true\<close>), a non-hidden subdirectory with a localized entry (flag
  \<open>false\<close>).
\<close>

theorem CreateBackend_every_artifact_once:
  assumes "CreateBackend w path mc cc = (out, tr)"
    and "m \<in> set (maps_handed_over tr)"
  shows "(is_regular_file w path n \<and> \<not> is_hidden w n \<longrightarrow>
            count_list (map fst m) n = 1 \<and> (\<exists>c. map_of m n = Some (True, c)))
       \<and> (is_subdir w path n \<and> \<not> is_hidden w n \<longrightarrow>
            count_list (map fst m) n = 1 \<and> (\<exists>p. map_of m n = Some (False, p)))"
proof -
  note hm = handed_over_map[OF assms]
  have once: "count_list (map fst m) n = 1" if "n \<in> fst ` set m"
    using that hm(1) by (simp add: count_list_distinct)
  have files: "count_list (map fst m) n = 1 \<and> (\<exists>c. map_of m n = Some (True, c))"
    if "is_regular_file w path n" "\<not> is_hidden w n"
  proof -
    from that hm(2) have n: "n \<in> fst ` set m" by blast
    then obtain v where v: "(n, v) \<in> set m" by force
    from hm(3)[OF v] that(1) have "fst v = True" by (auto dest: file_is_no_subdir)
    with v hm(1) have "map_of m n = Some (True, snd v)"
      by (metis map_of_is_SomeI prod.collapse)
    with once[OF n] show ?thesis by blast
  qed
  have dirs: "count_list (map fst m) n = 1 \<and> (\<exists>p. map_of m n = Some (False, p))"
    if "is_subdir w path n" "\<not> is_hidden w n"
  proof -
    from that hm(2) have n: "n \<in> fst ` set m" by blast
    then obtain v where v: "(n, v) \<in> set m" by force
    from hm(3)[OF v] that(1) have "fst v = False" by (auto dest: file_is_no_subdir)
    with v hm(1) have "map_of m n = Some (False, snd v)"
      by (metis map_of_is_SomeI prod.collapse)
    with once[OF n] show ?thesis by blast
  qed
  from files dirs show ?thesis by blast
qed

theorem CreateBackend_every_artifact_once_witness:
  "[(''weights'', False, ''/tmp/store''), (''model.onnx'', True, [])]
     \<in> set (maps_handed_over
        (snd (CreateBackend (healthy_world [(''model.onnx'', False), (''weights'', True)] [])
                ''/models/m'' () (0 :: nat))))
   \<and> is_regular_file (healthy_world [(''model.onnx'', False), (''weights'', True)] [])
        ''/models/m'' ''model.onnx''
   \<and> \<not> is_hidden (healthy_world [(''model.onnx'', False), (''weights'', True)] []) ''model.onnx''
   \<and> is_subdir (healthy_world [(''model.onnx'', False), (''weights'', True)] [])
        ''/models/m'' ''weights''
   \<and> \<not> is_hidden (healthy_world [(''model.onnx'', False), (''weights'', True)] []) ''weights''
   \<and> count_list (map fst [(''weights'', False, ''/tmp/store''), (''model.onnx'', True, [])])
        ''model.onnx'' = 1
   \<and> (\<exists>c. map_of [(''weights'', False, ''/tmp/store''), (''model.onnx'', True, [])]
              ''model.onnx'' = Some (True, c))
   \<and> count_list (map fst [(''weights'', False, ''/tmp/store''), (''model.onnx'', True, [])])
        ''weights'' = 1
   \<and> (\<exists>p. map_of [(''weights'', False, ''/tmp/store''), (''model.onnx'', True, [])]
              ''weights'' = Some (False, p))"
proof -
  let ?w = "healthy_world [(''model.onnx'', False), (''weights'', True)] []"
  let ?m = "[(''weights'', False, ''/tmp/store''), (''model.onnx'', True, [])]"
  have handed: "?m \<in> set (maps_handed_over (snd (CreateBackend ?w ''/models/m'' () (0 :: nat))))"
    by (simp add: file_and_subdir_run)
  have kinds: "is_regular_file ?w ''/models/m'' ''model.onnx''"
    "\<not> is_hidden ?w ''model.onnx''" "is_subdir ?w ''/models/m'' ''weights''"
    "\<not> is_hidden ?w ''weights''"
    by (simp_all add: is_regular_file_def is_subdir_def is_hidden_def healthy_world_def)
  note once = CreateBackend_every_artifact_once[of ?w "''/models/m''" "()" "0 :: nat" _ _ ?m,
      OF prod.collapse[symmetric] handed]
  from once[of "''model.onnx''"] once[of "''weights''"] handed kinds
  show ?thesis by blast
qed

text \<open>
  X3. For every model directory whose subdirectories do not outnumber its files,
  \<open>CreateBackend\<close> does what section 4.2 of the specification says, in terms of the
  statuses the collaborators return: the calls made are the steps up to and including
  the first one that fails, that first error is returned unchanged with the output
  unassigned, and when no step fails the backend is returned, built with the
  compute-capability floor, initialised, and given the artifact map of steps 3 and 4.
\<close>

theorem CreateBackend_follows_spec_steps:
  assumes "length (spec_subdirs w path) \<le> length (spec_files w path)"
  shows "fst (CreateBackend w path mc cc) = spec_CreateBackend w path mc cc
       \<and> statuses_of (snd (CreateBackend w path mc cc)) = steps_run (spec_step_statuses w path)"
proof -
  from assms have steps: "spec_step_statuses w path = first_steps w path @ last_steps w path"
    by (simp add: spec_step_statuses_def first_steps_def last_steps_def)
  from assms have fits: "\<not> length (spec_files w path) < length (spec_subdirs w path)" by simp
  show ?thesis
    using CreateBackend_closed[of w path mc cc]
    unfolding spec_CreateBackend_def steps first_error_append
    by (simp add: fits split: option.splits)
qed

theorem CreateBackend_follows_spec_steps_witness:
  "length (spec_subdirs
             (healthy_world [(''model.onnx'', False), (''weights'', True)] []
                \<lparr>read_status := (\<lambda>p. Failure ''unreadable'')\<rparr>) ''/models/m'')
     \<le> length (spec_files
             (healthy_world [(''model.onnx'', False), (''weights'', True)] []
                \<lparr>read_status := (\<lambda>p. Failure ''unreadable'')\<rparr>) ''/models/m'')
   \<and> spec_step_statuses
        (healthy_world [(''model.onnx'', False), (''weights'', True)] []
           \<lparr>read_status := (\<lambda>p. Failure ''unreadable'')\<rparr>) ''/models/m''
       = [Success, Success, Success, Failure ''unreadable'', Success, Success]
   \<and> fst (CreateBackend
             (healthy_world [(''model.onnx'', False), (''weights'', True)] []
                \<lparr>read_status := (\<lambda>p. Failure ''unreadable'')\<rparr>)
             ''/models/m'' () (0 :: nat))
       = Returns (Failure ''unreadable'') None
   \<and> statuses_of
        (snd (CreateBackend
                (healthy_world [(''model.onnx'', False), (''weights'', True)] []
                   \<lparr>read_status := (\<lambda>p. Failure ''unreadable'')\<rparr>)
                ''/models/m'' () (0 :: nat)))
       = [Success, Success, Success, Failure ''unreadable'']"
proof -
  let ?w = "healthy_world [(''model.onnx'', False), (''weights'', True)] []
              \<lparr>read_status := (\<lambda>p. Failure ''unreadable'')\<rparr>"
  have fs: "spec_files ?w ''/models/m'' = [''model.onnx'']"
    by (simp add: spec_files_def healthy_world_def is_regular_file_def is_hidden_def)
  have ds: "spec_subdirs ?w ''/models/m'' = [''weights'']"
    by (simp add: spec_subdirs_def healthy_world_def is_subdir_def is_hidden_def)
  have fits: "length (spec_subdirs ?w ''/models/m'') \<le> length (spec_files ?w ''/models/m'')"
    by (simp add: fs ds)
  have steps: "spec_step_statuses ?w ''/models/m''
                 = [Success, Success, Success, Failure ''unreadable'', Success, Success]"
    by (simp add: spec_step_statuses_def fs ds read_steps_def) (simp add: healthy_world_def)
  from CreateBackend_follows_spec_steps[OF fits, of "()" "0 :: nat"]
  have "fst (CreateBackend ?w ''/models/m'' () (0 :: nat)) = Returns (Failure ''unreadable'') None"
    "statuses_of (snd (CreateBackend ?w ''/models/m'' () (0 :: nat)))
       = [Success, Success, Success, Failure ''unreadable'']"
    unfolding spec_CreateBackend_def steps by simp_all
  with fits steps show ?thesis by simp
qed

text \<open>
  X4. For every model directory with more subdirectories than files, \<open>CreateBackend\<close>
  never returns \<open>Success\<close>: it returns the error of a scan or of one of the first
  localizations, as many as there are files, and when none of these fails it reads
  \<open>local_onnx\<close> out of range.
\<close>

theorem CreateBackend_more_subdirs_than_files:
  assumes "length (spec_files w path) < length (spec_subdirs w path)"
  shows "fst (CreateBackend w path mc cc) =
           (case first_error (first_steps w path) of
              Some e \<Rightarrow> Returns e None
            | None \<Rightarrow> UndefinedBehaviour)
       \<and> statuses_of (snd (CreateBackend w path mc cc)) = steps_run (first_steps w path)"
  using CreateBackend_closed[of w path mc cc] assms
  by (simp split: option.splits)

theorem CreateBackend_more_subdirs_than_files_witness:
  "length (spec_files
             (healthy_world [(''model.onnx'', False), (''tokenizer'', True), (''weights'', True)] [])
             ''/models/m'')
     < length (spec_subdirs
             (healthy_world [(''model.onnx'', False), (''tokenizer'', True), (''weights'', True)] [])
             ''/models/m'')
   \<and> first_steps
        (healthy_world [(''model.onnx'', False), (''tokenizer'', True), (''weights'', True)] [])
        ''/models/m'' = [Success, Success, Success]
   \<and> fst (CreateBackend
             (healthy_world [(''model.onnx'', False), (''tokenizer'', True), (''weights'', True)] [])
             ''/models/m'' () (0 :: nat)) = UndefinedBehaviour"
proof -
  let ?w = "healthy_world [(''model.onnx'', False), (''tokenizer'', True), (''weights'', True)] []"
  have fs: "spec_files ?w ''/models/m'' = [''model.onnx'']"
    by (simp add: spec_files_def healthy_world_def is_regular_file_def is_hidden_def)
  have ds: "spec_subdirs ?w ''/models/m'' = [''tokenizer'', ''weights'']"
    by (simp add: spec_subdirs_def healthy_world_def is_subdir_def is_hidden_def)
  have more: "length (spec_files ?w ''/models/m'') < length (spec_subdirs ?w ''/models/m'')"
    by (simp add: fs ds)
  have steps: "first_steps ?w ''/models/m'' = [Success, Success, Success]"
    by (simp add: first_steps_def fs ds) (simp add: healthy_world_def)
  from CreateBackend_more_subdirs_than_files[OF more, of "()" "0 :: nat"]
  have "fst (CreateBackend ?w ''/models/m'' () (0 :: nat)) = UndefinedBehaviour"
    unfolding steps by simp
  with more steps show ?thesis by simp
qed

end
